theory Spec2Isabelle
  imports Complex_Main "HOL-Library.Multiset"
begin

section \<open>Python values and exceptions\<close>

text \<open>
  The script of \<^verbatim>\<open>src/app.py\<close> is one Streamlit page. Its remote collaborators
  (S3, Step Functions, the clock, \<^verbatim>\<open>json.loads\<close>) are inputs of the model: the
  outcome of every remote call is an argument of the function that models the block
  making the call. Strings are ASCII texts.
\<close>

datatype py_error =
    TypeError | AttributeError | ValueError | OverflowError | KeyError
  | JSONDecodeError | ClientError string

text \<open>
  A Python \<^verbatim>\<open>float\<close> is the real number it denotes, an infinity or a NaN; only its
  truth value and \<^verbatim>\<open>int()\<close> of it are used.
\<close>

datatype py_float = Finite real | Infinite | NaN

text \<open>
  What \<^verbatim>\<open>json.loads\<close> returns. A \<^verbatim>\<open>dict\<close> is an association list in insertion
  order with distinct keys, read with \<open>map_of\<close>.
\<close>

datatype json =
    JNull | JBool bool | JInt int | JFloat py_float | JStr string
  | JList "json list" | JObj "(string \<times> json) list"

type_synonym py_dict = "(string \<times> json) list"

subsection \<open>Strings and numbers\<close>

text \<open>\<^verbatim>\<open>str.isspace\<close> on ASCII, as \<^verbatim>\<open>str.strip()\<close> uses it.\<close>

definition py_isspace :: "char \<Rightarrow> bool" where
  "py_isspace c = ((of_char c :: nat) \<in> {9, 10, 11, 12, 13, 28, 29, 30, 31, 32})"

definition py_strip :: "string \<Rightarrow> string" where
  "py_strip s = rev (dropWhile py_isspace (rev (dropWhile py_isspace s)))"

definition is_digit :: "char \<Rightarrow> bool" where
  "is_digit c = (48 \<le> (of_char c :: nat) \<and> (of_char c :: nat) \<le> 57)"

definition digit_val :: "char \<Rightarrow> nat" where
  "digit_val c = of_char c - 48"

definition digit_char :: "nat \<Rightarrow> char" where
  "digit_char d = ''0123456789'' ! d"

text \<open>\<^verbatim>\<open>str(n)\<close> of a Python \<^verbatim>\<open>int\<close>.\<close>

function str_nat :: "nat \<Rightarrow> string" where
  "str_nat n = (if n < 10 then [digit_char n] else str_nat (n div 10) @ [digit_char (n mod 10)])"
  by pat_completeness auto
termination
  by (relation "measure id") auto

declare str_nat.simps [simp del]

definition str_int :: "int \<Rightarrow> string" where
  "str_int i = (if i < 0 then CHR ''-'' # str_nat (nat (- i)) else str_nat (nat i))"

text \<open>
  \<^verbatim>\<open>int(s)\<close> of a string: whitespace around, an optional sign, decimal digits with
  single underscores between digits. (The whitespace \<^verbatim>\<open>int\<close> skips in an ASCII string
  is the C one, without the separators 28-31 that \<^verbatim>\<open>strip\<close> removes. The limit of
  recent Python versions on the number of digits is left out.)
\<close>

definition int_space :: "char \<Rightarrow> bool" where
  "int_space c = ((of_char c :: nat) \<in> {9, 10, 11, 12, 13, 32})"

fun parse_digits :: "nat \<Rightarrow> string \<Rightarrow> nat option" where
  "parse_digits acc [] = Some acc"
| "parse_digits acc (c # cs) =
     (if is_digit c then parse_digits (10 * acc + digit_val c) cs
      else if c = CHR ''_'' then
        (case cs of
           [] \<Rightarrow> None
         | d # ds \<Rightarrow> if is_digit d then parse_digits (10 * acc + digit_val d) ds else None)
      else None)"

definition parse_unsigned :: "string \<Rightarrow> nat option" where
  "parse_unsigned s =
     (case s of
        [] \<Rightarrow> None
      | c # cs \<Rightarrow> if is_digit c then parse_digits (digit_val c) cs else None)"

definition int_of_str :: "string \<Rightarrow> py_error + int" where
  "int_of_str s =
     (let t = rev (dropWhile int_space (rev (dropWhile int_space s)))
      in case t of
           [] \<Rightarrow> Inl ValueError
         | c # cs \<Rightarrow>
             (if c = CHR ''-'' then
                (case parse_unsigned cs of None \<Rightarrow> Inl ValueError | Some n \<Rightarrow> Inr (- int n))
              else if c = CHR ''+'' then
                (case parse_unsigned cs of None \<Rightarrow> Inl ValueError | Some n \<Rightarrow> Inr (int n))
              else
                (case parse_unsigned t of None \<Rightarrow> Inl ValueError | Some n \<Rightarrow> Inr (int n))))"

text \<open>\<^verbatim>\<open>int(v)\<close> of a decoded JSON value.\<close>

fun py_int :: "json \<Rightarrow> py_error + int" where
  "py_int (JInt i) = Inr i"
| "py_int (JBool b) = Inr (if b then 1 else 0)"
| "py_int (JStr s) = int_of_str s"
| "py_int (JFloat (Finite x)) = Inr (if 0 \<le> x then \<lfloor>x\<rfloor> else \<lceil>x\<rceil>)"
| "py_int (JFloat Infinite) = Inl OverflowError"
| "py_int (JFloat NaN) = Inl ValueError"
| "py_int JNull = Inl TypeError"
| "py_int (JList xs) = Inl TypeError"
| "py_int (JObj kvs) = Inl TypeError"

subsection \<open>Containers\<close>

text \<open>\<^verbatim>\<open>p in s\<close> for two strings: \<open>p\<close> occurs in \<open>s\<close>.\<close>

fun str_contains :: "string \<Rightarrow> string \<Rightarrow> bool" where
  "str_contains p [] = (p = [])"
| "str_contains p (c # cs) = (take (length p) (c # cs) = p \<or> str_contains p cs)"

text \<open>\<^verbatim>\<open>k in v\<close> for a string \<open>k\<close>.\<close>

fun py_in :: "string \<Rightarrow> json \<Rightarrow> py_error + bool" where
  "py_in k (JObj kvs) = Inr (k \<in> set (map fst kvs))"
| "py_in k (JList xs) = Inr (JStr k \<in> set xs)"
| "py_in k (JStr s) = Inr (str_contains k s)"
| "py_in k JNull = Inl TypeError"
| "py_in k (JBool b) = Inl TypeError"
| "py_in k (JInt i) = Inl TypeError"
| "py_in k (JFloat x) = Inl TypeError"

text \<open>\<^verbatim>\<open>v[k]\<close> for a string \<open>k\<close>.\<close>

fun py_getitem :: "json \<Rightarrow> string \<Rightarrow> py_error + json" where
  "py_getitem (JObj kvs) k = (case map_of kvs k of None \<Rightarrow> Inl KeyError | Some v \<Rightarrow> Inr v)"
| "py_getitem (JList xs) k = Inl TypeError"
| "py_getitem (JStr s) k = Inl TypeError"
| "py_getitem JNull k = Inl TypeError"
| "py_getitem (JBool b) k = Inl TypeError"
| "py_getitem (JInt i) k = Inl TypeError"
| "py_getitem (JFloat x) k = Inl TypeError"

text \<open>\<^verbatim>\<open>d.get(k, default)\<close> of a \<^verbatim>\<open>dict\<close>.\<close>

definition dict_get :: "py_dict \<Rightarrow> string \<Rightarrow> json \<Rightarrow> json" where
  "dict_get kvs k d = (case map_of kvs k of None \<Rightarrow> d | Some v \<Rightarrow> v)"

text \<open>\<^verbatim>\<open>v.get(k, default)\<close> of any value: only a \<^verbatim>\<open>dict\<close> has the method.\<close>

fun py_get :: "json \<Rightarrow> string \<Rightarrow> json \<Rightarrow> py_error + json" where
  "py_get (JObj kvs) k d = Inr (dict_get kvs k d)"
| "py_get (JList xs) k d = Inl AttributeError"
| "py_get (JStr s) k d = Inl AttributeError"
| "py_get JNull k d = Inl AttributeError"
| "py_get (JBool b) k d = Inl AttributeError"
| "py_get (JInt i) k d = Inl AttributeError"
| "py_get (JFloat x) k d = Inl AttributeError"

fun py_len :: "json \<Rightarrow> py_error + nat" where
  "py_len (JList xs) = Inr (length xs)"
| "py_len (JObj kvs) = Inr (length kvs)"
| "py_len (JStr s) = Inr (length s)"
| "py_len JNull = Inl TypeError"
| "py_len (JBool b) = Inl TypeError"
| "py_len (JInt i) = Inl TypeError"
| "py_len (JFloat x) = Inl TypeError"

text \<open>
  The items a \<^verbatim>\<open>for\<close> loop (or \<^verbatim>\<open>zip\<close>, \<^verbatim>\<open>enumerate\<close>) draws from a value: the
  elements of a list, the keys of a dict, the characters of a string.
\<close>

fun py_iter :: "json \<Rightarrow> py_error + json list" where
  "py_iter (JList xs) = Inr xs"
| "py_iter (JObj kvs) = Inr (map (\<lambda>kv. JStr (fst kv)) kvs)"
| "py_iter (JStr s) = Inr (map (\<lambda>c. JStr [c]) s)"
| "py_iter JNull = Inl TypeError"
| "py_iter (JBool b) = Inl TypeError"
| "py_iter (JInt i) = Inl TypeError"
| "py_iter (JFloat x) = Inl TypeError"

fun py_truthy :: "json \<Rightarrow> bool" where
  "py_truthy JNull = False"
| "py_truthy (JBool b) = b"
| "py_truthy (JInt i) = (i \<noteq> 0)"
| "py_truthy (JFloat (Finite x)) = (x \<noteq> 0)"
| "py_truthy (JFloat Infinite) = True"
| "py_truthy (JFloat NaN) = True"
| "py_truthy (JStr s) = (s \<noteq> [])"
| "py_truthy (JList xs) = (xs \<noteq> [])"
| "py_truthy (JObj kvs) = (kvs \<noteq> [])"

section \<open>What the page shows\<close>

text \<open>
  An f-string is the list of its parts: literal text, and the values it formats with
  \<^verbatim>\<open>str()\<close>. Each Streamlit call of the script is one event, in the order of the
  calls. \<open>St_progress_bar\<close> is \<^verbatim>\<open>st.progress(0)\<close>, which creates the bar, and
  \<open>St_progress n d\<close> the call \<^verbatim>\<open>upload_progress.progress(n / d)\<close>;
  \<open>St_placeholder\<close> is \<^verbatim>\<open>st.empty()\<close>, which creates a placeholder,
  \<open>St_text\<close> the \<^verbatim>\<open>text\<close> call on \<^verbatim>\<open>upload_status\<close> and \<open>St_empty\<close> the
  \<^verbatim>\<open>empty()\<close> call that clears a placeholder; \<open>Sleep\<close> is \<^verbatim>\<open>time.sleep\<close>, in
  milliseconds.
\<close>

datatype fragment = Lit string | Fmt json | FmtErr py_error

type_synonym msg = "fragment list"

datatype ui =
    St_header msg | St_subheader msg | St_markdown msg | St_write msg
  | St_info msg | St_success msg | St_warning msg | St_error msg
  | St_sidebar msg
  | St_progress_bar
  | St_progress nat nat
  | St_placeholder string
  | St_text msg
  | St_empty string
  | St_button string
  | Sleep nat

text \<open>
  A block that shows events and may raise: the events shown so far, and the exception
  that ended the block, if any.
\<close>

type_synonym run = "ui list \<times> py_error option"

definition emit :: "ui list \<Rightarrow> run" where
  "emit es = (es, None)"

definition seq :: "run \<Rightarrow> run \<Rightarrow> run" where
  "seq a b =
     (case a of
        (es, Some e) \<Rightarrow> (es, Some e)
      | (es, None) \<Rightarrow> (case b of (es', r) \<Rightarrow> (es @ es', r)))"

definition try_value :: "py_error + 'a \<Rightarrow> ('a \<Rightarrow> run) \<Rightarrow> run" where
  "try_value r k = (case r of Inl e \<Rightarrow> ([], Some e) | Inr v \<Rightarrow> k v)"

fun for_each :: "('a \<Rightarrow> run) \<Rightarrow> 'a list \<Rightarrow> run" where
  "for_each f [] = emit []"
| "for_each f (x # xs) = seq (f x) (for_each f xs)"

section \<open>Session state and the automatic status checker\<close>

text \<open>
  \<^verbatim>\<open>st.session_state\<close> with the keys the script initialises (lines 60-67 and
  119-126), but \<^verbatim>\<open>last_check_time\<close>, which it never reads again. \<^verbatim>\<open>None\<close> is
  \<open>None\<close>.
\<close>

record session_state =
  session_id :: "string option"
  auto_check :: bool
  uploaded_files :: "string list"
  execution_arn :: "string option"
  execution_status :: "string option"

text \<open>Truth value of an optional string: \<^verbatim>\<open>None\<close> and \<^verbatim>\<open>''\<close> are false.\<close>

fun truthy_str :: "string option \<Rightarrow> bool" where
  "truthy_str None = False"
| "truthy_str (Some s) = (s \<noteq> [])"

text \<open>
  The response of \<^verbatim>\<open>describe_execution\<close>: \<^verbatim>\<open>status\<close> is always there, the other
  keys only for some statuses.
\<close>

record describe_response =
  resp_status :: string
  resp_output :: "string option"
  resp_error :: "string option"
  resp_cause :: "string option"

definition terminal_statuses :: "string list" where
  "terminal_statuses = [''SUCCEEDED'', ''FAILED'', ''TIMED_OUT'', ''ABORTED'']"

text \<open>
  \<^verbatim>\<open>auto_check_status\<close> (lines 76-100). The argument \<open>resp\<close> is the outcome of
  \<^verbatim>\<open>describe_execution\<close>: \<open>Inl e\<close> when the call raises, \<open>Inr r\<close> when it
  returns the response \<open>r\<close>. The result is the new session state and the returned value
  (\<open>None\<close> for Python's \<^verbatim>\<open>None\<close>).
\<close>

definition auto_check_status ::
  "session_state \<Rightarrow> py_error + describe_response \<Rightarrow> session_state \<times> string option" where
  "auto_check_status st resp =
     (if \<not> truthy_str (execution_arn st) then (st, None)
      else case resp of
        Inr response \<Rightarrow>
          (let current_status = resp_status response;
               st1 = st\<lparr>execution_status := Some current_status\<rparr>
           in if current_status \<in> set terminal_statuses
              then (st1\<lparr>auto_check := False\<rparr>, Some current_status)
              else (st1, Some current_status))
      | Inl e \<Rightarrow> (st\<lparr>auto_check := False\<rparr>, None))"

text \<open>
  What one run of the script does at lines 132-144. \<open>Skipped\<close>: the guard is false and
  the script goes on to the rest of the page. \<open>Rerun d st\<close>: one poll was made, the
  script slept \<open>d\<close> milliseconds and \<^verbatim>\<open>st.rerun()\<close> restarts it from the top with
  the session state \<open>st\<close>.
\<close>

datatype tick_result = Skipped | Rerun nat session_state

definition poll_guard :: "session_state \<Rightarrow> bool" where
  "poll_guard st = (auto_check st \<and> truthy_str (execution_arn st))"

definition auto_check_block ::
  "session_state \<Rightarrow> py_error + describe_response \<Rightarrow> tick_result" where
  "auto_check_block st resp =
     (if poll_guard st then
        (case auto_check_status st resp of
           (st', status) \<Rightarrow>
             (case status of
                Some s \<Rightarrow> if s \<in> set terminal_statuses then Rerun 0 st' else Rerun 2000 st'
              | None \<Rightarrow> Rerun 2000 st'))
      else Skipped)"

section \<open>Staging the content\<close>

text \<open>
  An uploaded file is its name and the outcome of its \<^verbatim>\<open>upload_fileobj\<close> call:
  \<open>None\<close> when the call returns, \<open>Some e\<close> when it raises \<open>e\<close>.
\<close>

type_synonym upload = "string \<times> py_error option"

text \<open>The variables of the staging code and the events it has shown.\<close>

record staging =
  file_paths :: "string list"
  files_processed :: nat
  shown :: "ui list"

definition show_ui :: "ui list \<Rightarrow> staging \<Rightarrow> staging" where
  "show_ui es sg = sg\<lparr>shown := shown sg @ es\<rparr>"

text \<open>
  Lines 167-190, for a text that is not blank: \<open>now\<close> is \<^verbatim>\<open>int(time.time())\<close> and
  \<open>outcome\<close> the outcome of \<^verbatim>\<open>put_object\<close>.
\<close>

definition stage_text ::
  "string \<Rightarrow> nat \<Rightarrow> int \<Rightarrow> py_error option \<Rightarrow> staging \<Rightarrow> staging" where
  "stage_text sid total_files now outcome sg =
     (let text_filename = ''user_input_'' @ str_int now @ ''.txt'';
          file_key = sid @ ''/'' @ text_filename;
          sg1 = show_ui [St_text [Lit ''Uploading user-entered text as '', Lit text_filename,
                                  Lit ''...'']] sg
      in case outcome of
           None \<Rightarrow>
             show_ui [St_progress (files_processed sg1 + 1) total_files]
               (sg1\<lparr>file_paths := file_paths sg1 @ [file_key],
                    files_processed := files_processed sg1 + 1\<rparr>)
         | Some e \<Rightarrow> show_ui [St_error [Lit ''Error uploading user text: '', FmtErr e]] sg1)"

text \<open>One round of the loop of lines 193-211.\<close>

definition stage_file :: "string \<Rightarrow> nat \<Rightarrow> upload \<Rightarrow> staging \<Rightarrow> staging" where
  "stage_file sid total_files file sg =
     (let file_key = sid @ ''/'' @ fst file;
          sg1 = show_ui [St_text [Lit ''Uploading '', Lit (fst file), Lit ''...'']] sg
      in case snd file of
           None \<Rightarrow>
             show_ui [St_progress (files_processed sg1 + 1) total_files]
               (sg1\<lparr>file_paths := file_paths sg1 @ [file_key],
                    files_processed := files_processed sg1 + 1\<rparr>)
         | Some e \<Rightarrow>
             show_ui [St_error [Lit ''Error uploading '', Lit (fst file), Lit '': '', FmtErr e]]
               sg1)"

fun stage_files :: "string \<Rightarrow> nat \<Rightarrow> upload list \<Rightarrow> staging \<Rightarrow> staging" where
  "stage_files sid total_files [] sg = sg"
| "stage_files sid total_files (file # files) sg =
     stage_files sid total_files files (stage_file sid total_files file sg)"

text \<open>
  Lines 156-211: the whole staging of one submission, text first, then the files in the
  order of the uploader. \<open>text_outcome\<close> is read only when the text is not blank.
\<close>

definition stage ::
  "string \<Rightarrow> string \<Rightarrow> int \<Rightarrow> py_error option \<Rightarrow> upload list \<Rightarrow> staging" where
  "stage sid user_text now text_outcome files =
     (let sg0 = \<lparr>file_paths = [], files_processed = 0,
                 shown = [St_progress_bar, St_placeholder ''upload_status'']\<rparr>;
          total_files = length files + (if py_strip user_text \<noteq> [] then 1 else 0);
          sg1 = (if py_strip user_text \<noteq> [] then stage_text sid total_files now text_outcome sg0
                 else sg0)
      in stage_files sid total_files files sg1)"

section \<open>Launching the execution\<close>

text \<open>
  Lines 217-255. \<open>start\<close> is the outcome of \<^verbatim>\<open>start_execution\<close>: \<open>Inl e\<close> when it
  raises, \<open>Inr r\<close> when it returns, \<open>r\<close> being the \<^verbatim>\<open>executionArn\<close> of the
  response if it has one. The result is the session state, the events, and whether the
  block ended with \<^verbatim>\<open>st.rerun()\<close> (whose exception is not an \<^verbatim>\<open>Exception\<close>, so
  the handler of line 253 does not catch it).
\<close>

definition launch ::
  "session_state \<Rightarrow> py_error + string option \<Rightarrow> session_state \<times> ui list \<times> bool" where
  "launch st start =
     (let starting = [St_placeholder ''starting_msg'',
                      St_info [Lit ''Starting document processing pipeline...'']];
          failed = (\<lambda>e. (st, starting @ [St_empty ''starting_msg'',
                       St_error [Lit ''Error starting Step Function: '', FmtErr e]], False))
      in case start of
           Inl e \<Rightarrow> failed e
         | Inr None \<Rightarrow> failed KeyError
         | Inr (Some arn) \<Rightarrow>
             (st\<lparr>execution_arn := Some arn, auto_check := True\<rparr>,
              starting @ [St_placeholder ''success_msg'',
                St_success [Lit ''Processing pipeline started successfully!''],
                Sleep 1500, St_empty ''upload_progress'', St_empty ''upload_status'',
                St_empty ''starting_msg'', St_empty ''success_msg''],
              True))"

text \<open>
  Lines 146-257: the button \<^verbatim>\<open>Process Content\<close>. \<open>new_id\<close> is what
  \<^verbatim>\<open>generate_session_id()\<close> returns.
\<close>

definition process_content ::
  "session_state \<Rightarrow> upload list \<Rightarrow> string \<Rightarrow> bool \<Rightarrow> string \<Rightarrow> int \<Rightarrow> py_error option
     \<Rightarrow> py_error + string option \<Rightarrow> session_state \<times> ui list \<times> bool" where
  "process_content st files user_text process_button new_id now text_outcome start =
     (if (files \<noteq> [] \<or> py_strip user_text \<noteq> []) \<and> process_button then
        (let st1 = st\<lparr>session_id := Some new_id\<rparr>;
             sidebar = [St_sidebar [Lit ''**Current Session ID**: '', Lit new_id]];
             sg = stage new_id user_text now text_outcome files
         in if file_paths sg \<noteq> [] then
              (case launch (st1\<lparr>uploaded_files := file_paths sg\<rparr>) start of
                 (st2, es, rerun) \<Rightarrow>
                   (st2, sidebar @ shown sg
                         @ [St_text [Lit ''All content uploaded successfully!'']] @ es, rerun))
            else
              (st1, sidebar @ shown sg
                 @ [St_error [Lit ''No content was successfully uploaded. Please try again.'']],
               False))
      else (st, [], False))"

section \<open>Rendering the results\<close>

text \<open>
  Lines 316-336, and the same text again at lines 350-370 and 386-406: one question,
  its answer and its follow-up questions. \<open>body\<close> is a \<^verbatim>\<open>dict\<close>.
\<close>

definition render_follow_up :: "nat \<times> json \<Rightarrow> run" where
  "render_follow_up p =
     (case p of (idx, fu_item) \<Rightarrow>
        try_value (py_get fu_item ''question'' (JStr ''N/A'')) (\<lambda>q.
        try_value (py_get q ''S'' (JStr ''N/A'')) (\<lambda>fu_question.
        try_value (py_get fu_item ''answer'' (JStr ''N/A'')) (\<lambda>fu_answer.
          emit [St_markdown [Lit ''**'', Lit (str_nat (idx + 1)), Lit ''. '', Fmt fu_question,
                             Lit ''**''],
                St_markdown [Lit ''   Answer: '', Fmt fu_answer]]))))"

definition render_question :: "py_dict \<Rightarrow> run" where
  "render_question body =
     (let question_id = dict_get body ''question_id'' (JStr ''N/A'');
          question = dict_get body ''question'' (JStr ''N/A'');
          answer = dict_get body ''answer'' (JStr ''N/A'');
          follow_up = dict_get body ''follow-up'' (JList [])
      in seq (emit [St_markdown [Lit ''**Question '', Fmt question_id, Lit ''**: '', Fmt question],
                    St_markdown [Lit ''**Answer**: '', Fmt answer]])
        (seq (if py_truthy follow_up then
                try_value (py_len follow_up) (\<lambda>n.
                  if n > 0 then
                    seq (emit [St_markdown [Lit ''**Follow-up Questions:**'']])
                      (try_value (py_iter follow_up) (\<lambda>items.
                         for_each render_follow_up (enumerate 0 items)))
                  else emit [])
              else emit [])
           (emit [St_markdown [Lit ''---'']])))"

text \<open>
  Lines 304-309, 345-349 and 381-385: the guard on one item of a topic's list.
  \<open>Inr None\<close>: the item is passed over; \<open>Inr (Some body)\<close>: it has a \<^verbatim>\<open>dict\<close> body.
\<close>

definition item_body :: "json \<Rightarrow> py_error + py_dict option" where
  "item_body item =
     (case py_in ''body'' item of
        Inl e \<Rightarrow> Inl e
      | Inr False \<Rightarrow> Inr None
      | Inr True \<Rightarrow>
          (case py_getitem item ''body'' of
             Inl e \<Rightarrow> Inl e
           | Inr (JObj body) \<Rightarrow> Inr (Some body)
           | Inr _ \<Rightarrow> Inr None))"

text \<open>Lines 302-309: the loop that collects the questions of a topic.\<close>

fun collect_questions :: "json list \<Rightarrow> py_dict list \<Rightarrow> py_error + py_dict list" where
  "collect_questions [] questions = Inr questions"
| "collect_questions (item # items) questions =
     (case item_body item of
        Inl e \<Rightarrow> Inl e
      | Inr None \<Rightarrow> collect_questions items questions
      | Inr (Some body) \<Rightarrow> collect_questions items (questions @ [body]))"

text \<open>
  Line 312: \<^verbatim>\<open>sorted(questions, key=lambda q: int(q.get('question_id', '0')))\<close>.
  \<^verbatim>\<open>sorted\<close> computes the key of every element first, in the order of the list, then
  sorts stably by the keys; a stable sort has one result, which \<open>sort_key\<close> computes.
\<close>

definition question_key :: "py_dict \<Rightarrow> py_error + int" where
  "question_key q = py_int (dict_get q ''question_id'' (JStr ''0''))"

fun question_keys :: "py_dict list \<Rightarrow> py_error + (int \<times> py_dict) list" where
  "question_keys [] = Inr []"
| "question_keys (q # qs) =
     (case question_key q of
        Inl e \<Rightarrow> Inl e
      | Inr k \<Rightarrow> (case question_keys qs of Inl e \<Rightarrow> Inl e | Inr kqs \<Rightarrow> Inr ((k, q) # kqs)))"

definition sorted_questions :: "py_dict list \<Rightarrow> py_error + py_dict list" where
  "sorted_questions questions =
     (case question_keys questions of
        Inl e \<Rightarrow> Inl e
      | Inr kqs \<Rightarrow> Inr (map snd (sort_key fst kqs)))"

text \<open>Lines 298-336: one round of the loop over the pairs of a name and a result list.\<close>

definition render_named_topic :: "json \<times> json \<Rightarrow> run" where
  "render_named_topic p =
     (case p of (topic_name, topic_data) \<Rightarrow>
        seq (emit [St_subheader [Fmt topic_name]])
          (try_value (py_iter topic_data) (\<lambda>items.
           try_value (collect_questions items []) (\<lambda>questions.
           try_value (sorted_questions questions) (\<lambda>sorted_qs.
             for_each render_question sorted_qs)))))"

text \<open>Lines 340-370 and 376-406: one round of the loop of the fallback.\<close>

definition render_item :: "json \<Rightarrow> run" where
  "render_item item =
     try_value (item_body item) (\<lambda>b.
       case b of None \<Rightarrow> emit [] | Some body \<Rightarrow> render_question body)"

definition render_positional_topic :: "nat \<times> json \<Rightarrow> run" where
  "render_positional_topic p =
     (case p of (topic_idx, topic_data) \<Rightarrow>
        seq (emit [St_subheader [Lit ''Topic '', Lit (str_nat (topic_idx + 1))]])
          (try_value (py_iter topic_data) (\<lambda>items. for_each render_item items)))"

definition mismatch_warning :: ui where
  "mismatch_warning =
     St_warning [Lit ''Topic names and data lengths don't match. Displaying data without topic names.'']"

text \<open>Lines 289-406: the decoded output is rendered.\<close>

definition render_output :: "json \<Rightarrow> run" where
  "render_output output =
     try_value (py_in ''topic_results'' output) (\<lambda>has_results.
     try_value (if has_results then py_in ''topics'' output else Inr False) (\<lambda>has_both.
       if has_both then
         seq (emit [St_header [Lit ''Processing Results'']])
           (try_value (py_getitem output ''topics'') (\<lambda>topics.
            try_value (py_getitem output ''topic_results'') (\<lambda>topics_data.
            try_value (py_len topics) (\<lambda>n.
            try_value (py_len topics_data) (\<lambda>m.
              if n = m then
                try_value (py_iter topics) (\<lambda>names.
                try_value (py_iter topics_data) (\<lambda>datas.
                  for_each render_named_topic (zip names datas)))
              else
                seq (emit [mismatch_warning])
                  (try_value (py_iter topics_data) (\<lambda>datas.
                     for_each render_positional_topic (enumerate 0 datas))))))))
       else if has_results then
         seq (emit [St_header [Lit ''Processing Results'']])
           (try_value (py_getitem output ''topic_results'') (\<lambda>topics_data.
            try_value (py_iter topics_data) (\<lambda>datas.
              for_each render_positional_topic (enumerate 0 datas))))
       else emit []))"

text \<open>
  A field of the response with its default, as \<^verbatim>\<open>response.get(key, '{}')\<close> reads it.
\<close>

definition field_or_default :: "string option \<Rightarrow> string" where
  "field_or_default f = (case f of None \<Rightarrow> ''{}'' | Some s \<Rightarrow> s)"

text \<open>
  Lines 281-408: the \<^verbatim>\<open>try\<close> block under the status \<^verbatim>\<open>SUCCEEDED\<close>. \<open>loads\<close> is
  \<^verbatim>\<open>json.loads\<close>, and \<open>resp\<close> the outcome of the \<^verbatim>\<open>describe_execution\<close> call
  of line 282.
\<close>

definition parse_warning :: "py_error \<Rightarrow> ui" where
  "parse_warning e = St_warning [Lit ''Could not parse execution output: '', FmtErr e]"

definition rendered :: "json \<Rightarrow> ui list" where
  "rendered output =
     (case render_output output of
        (es, None) \<Rightarrow> es
      | (es, Some e) \<Rightarrow> es @ [parse_warning e])"

definition succeeded_block ::
  "(string \<Rightarrow> py_error + json) \<Rightarrow> py_error + describe_response \<Rightarrow> ui list" where
  "succeeded_block loads resp =
     (case resp of
        Inl e \<Rightarrow> [parse_warning e]
      | Inr response \<Rightarrow>
          (case loads (field_or_default (resp_output response)) of
             Inl e \<Rightarrow> [parse_warning e]
           | Inr output \<Rightarrow> rendered output))"

text \<open>Lines 414-423: the \<^verbatim>\<open>try\<close> block under the status \<^verbatim>\<open>FAILED\<close>.\<close>

definition details_warning :: "py_error \<Rightarrow> ui" where
  "details_warning e = St_warning [Lit ''Could not parse error details: '', FmtErr e]"

definition failed_block ::
  "(string \<Rightarrow> py_error + json) \<Rightarrow> py_error + describe_response \<Rightarrow> ui list" where
  "failed_block loads resp =
     (case resp of
        Inl e \<Rightarrow> [details_warning e]
      | Inr response \<Rightarrow>
          (case loads (field_or_default (resp_error response)) of
             Inl e \<Rightarrow> [details_warning e]
           | Inr error \<Rightarrow>
               (case loads (field_or_default (resp_cause response)) of
                  Inl e \<Rightarrow> [details_warning e]
                | Inr cause \<Rightarrow>
                    [St_error [Lit ''Error: '', Fmt error],
                     St_error [Lit ''Cause: '', Fmt cause]])))"

section \<open>The status section of the page\<close>

text \<open>
  Lines 259-439. \<open>resp\<close> is the outcome of the \<^verbatim>\<open>describe_execution\<close> call that the
  branches \<^verbatim>\<open>SUCCEEDED\<close> and \<^verbatim>\<open>FAILED\<close> make, \<open>clicked\<close> whether the button
  \<^verbatim>\<open>Check Status Manually\<close> was pressed, and \<open>poll\<close> the outcome of the call that
  \<^verbatim>\<open>auto_check_status\<close> makes then. The result is the session state, the events, and
  whether the section ended with \<^verbatim>\<open>st.rerun()\<close>.
\<close>

definition status_section ::
  "(string \<Rightarrow> py_error + json) \<Rightarrow> session_state \<Rightarrow> py_error + describe_response \<Rightarrow> bool
     \<Rightarrow> py_error + describe_response \<Rightarrow> session_state \<times> ui list \<times> bool" where
  "status_section loads st resp clicked poll =
     (if truthy_str (execution_arn st) then
        (if truthy_str (execution_status st) then
           (let status = (case execution_status st of Some s \<Rightarrow> s | None \<Rightarrow> []);
                top = [St_header [Lit ''Execution Status''],
                       St_write [Lit ''Current Status: **'', Lit status, Lit ''**'']]
                      @ (if auto_check st \<and> status = ''RUNNING''
                         then [St_info [Lit ''The system is analyzing your documents. Please wait.'']]
                         else [])
            in if status = ''SUCCEEDED'' then
                 (st, top @ [St_success [Lit ''Processing completed successfully!''], Sleep 1000]
                        @ succeeded_block loads resp, False)
               else if status = ''FAILED'' then
                 (st, top @ [St_error [Lit ''Processing failed.'']] @ failed_block loads resp, False)
               else if status = ''RUNNING'' then
                 (if \<not> auto_check st then
                    (if clicked then
                       (fst (auto_check_status st poll),
                        top @ [St_info [Lit ''Processing is running.''],
                               St_button ''Check Status Manually''], True)
                     else
                       (st, top @ [St_info [Lit ''Processing is running.''],
                                   St_button ''Check Status Manually''], False))
                  else (st, top, False))
               else (st, top, False))
         else
           (st, [St_header [Lit ''Execution Status''], St_info [Lit ''Awaiting status update...'']],
            auto_check st))
      else (st, [], False))"

section \<open>Vocabulary of the properties\<close>

text \<open>The key of an uploaded file, and whether its upload returned.\<close>

definition uploaded_key :: "string \<Rightarrow> upload \<Rightarrow> string" where
  "uploaded_key sid file = sid @ ''/'' @ fst file"

definition upload_ok :: "upload \<Rightarrow> bool" where
  "upload_ok file = (snd file = None)"

definition text_key :: "string \<Rightarrow> int \<Rightarrow> string" where
  "text_key sid now = sid @ ''/'' @ ''user_input_'' @ str_int now @ ''.txt''"

text \<open>
  The items of a submission (the files, and the text when it is not blank) and those
  among them whose upload raised.
\<close>

definition total_items :: "string \<Rightarrow> upload list \<Rightarrow> nat" where
  "total_items user_text files = length files + (if py_strip user_text \<noteq> [] then 1 else 0)"

definition failed_items :: "string \<Rightarrow> py_error option \<Rightarrow> upload list \<Rightarrow> nat" where
  "failed_items user_text text_outcome files =
     length (filter (\<lambda>f. snd f \<noteq> None) files)
     + (if py_strip user_text \<noteq> [] \<and> text_outcome \<noteq> None then 1 else 0)"

text \<open>
  What the page shows for the text item, and for the file at position \<open>i\<close> of the
  uploader: the status line that names the item, then, when the upload returned, the
  progress call with the number of items uploaded up to and including this one, and,
  when it raised, the error. \<open>text_done\<close> is 1 when the text item was uploaded.
\<close>

definition text_events :: "nat \<Rightarrow> int \<Rightarrow> py_error option \<Rightarrow> ui list" where
  "text_events total_files now text_outcome =
     St_text [Lit ''Uploading user-entered text as '', Lit (''user_input_'' @ str_int now @ ''.txt''),
              Lit ''...'']
     # (case text_outcome of
          None \<Rightarrow> [St_progress 1 total_files]
        | Some e \<Rightarrow> [St_error [Lit ''Error uploading user text: '', FmtErr e]])"

definition file_events :: "nat \<Rightarrow> nat \<Rightarrow> upload list \<Rightarrow> nat \<Rightarrow> ui list" where
  "file_events total_files text_done files i =
     St_text [Lit ''Uploading '', Lit (fst (files ! i)), Lit ''...'']
     # (case snd (files ! i) of
          None \<Rightarrow>
            [St_progress (text_done + length (filter upload_ok (take (Suc i) files))) total_files]
        | Some e \<Rightarrow>
            [St_error [Lit ''Error uploading '', Lit (fst (files ! i)), Lit '': '', FmtErr e]])"

text \<open>The progress calls among the events, in order, as pairs of items done and total.\<close>

fun progress_of :: "ui \<Rightarrow> (nat \<times> nat) option" where
  "progress_of (St_progress n d) = Some (n, d)"
| "progress_of _ = None"

definition progress_reports :: "ui list \<Rightarrow> (nat \<times> nat) list" where
  "progress_reports es = List.map_filter progress_of es"

text \<open>
  The pattern \<^verbatim>\<open>{session_id}/user_input_*.txt\<close> of the specification, on a key, and
  the pattern \<^verbatim>\<open>user_input_*.txt\<close> on a file name.
\<close>

definition matches_user_input :: "string \<Rightarrow> string \<Rightarrow> bool" where
  "matches_user_input sid key =
     (let p = sid @ ''/user_input_''
      in length p + 4 \<le> length key \<and> take (length p) key = p
         \<and> drop (length key - 4) key = ''.txt'')"

definition name_matches :: "string \<Rightarrow> bool" where
  "name_matches name =
     (15 \<le> length name \<and> take 11 name = ''user_input_''
      \<and> drop (length name - 4) name = ''.txt'')"

text \<open>
  The shape of a topic's result list that the service is expected to send: a list of
  \<^verbatim>\<open>dict\<close>s. \<open>dict_bodies\<close> are the \<^verbatim>\<open>body\<close> values that are \<^verbatim>\<open>dict\<close>s, in the
  order of the list; \<open>display_order\<close> is what line 312 makes of them, and
  \<open>ascending_by_id\<close> says that the keys of line 312 ascend along a list of questions.
\<close>

fun is_dict :: "json \<Rightarrow> bool" where
  "is_dict (JObj kvs) = True"
| "is_dict _ = False"

definition body_of :: "json \<Rightarrow> py_dict option" where
  "body_of item =
     (case item of
        JObj kvs \<Rightarrow> (case map_of kvs ''body'' of Some (JObj body) \<Rightarrow> Some body | _ \<Rightarrow> None)
      | _ \<Rightarrow> None)"

definition dict_bodies :: "json \<Rightarrow> py_dict list" where
  "dict_bodies topic_data =
     (case topic_data of JList items \<Rightarrow> List.map_filter body_of items | _ \<Rightarrow> [])"

definition list_of_dicts :: "json \<Rightarrow> bool" where
  "list_of_dicts topic_data =
     (case topic_data of JList items \<Rightarrow> list_all is_dict items | _ \<Rightarrow> False)"

definition display_order :: "json \<Rightarrow> py_dict list" where
  "display_order topic_data =
     (case sorted_questions (dict_bodies topic_data) of Inl e \<Rightarrow> [] | Inr qs \<Rightarrow> qs)"

definition ascending_by_id :: "py_dict list \<Rightarrow> bool" where
  "ascending_by_id qs =
     (case question_keys qs of Inl e \<Rightarrow> False | Inr kqs \<Rightarrow> sorted (map fst kqs))"

text \<open>
  A result list of the expected shape under its label: the questions of the payload in
  their order under \<^verbatim>\<open>Topic n\<close>, and the questions in the order of line 312 under the
  topic's name. \<open>positional_events\<close> and \<open>named_events\<close> are the events of the two when
  no question raises.
\<close>

definition topic_in_payload_order :: "nat \<times> json \<Rightarrow> run" where
  "topic_in_payload_order p =
     seq (emit [St_subheader [Lit ''Topic '', Lit (str_nat (fst p + 1))]])
       (for_each render_question (dict_bodies (snd p)))"

definition topic_in_id_order :: "json \<times> json \<Rightarrow> run" where
  "topic_in_id_order p =
     seq (emit [St_subheader [Fmt (fst p)]])
       (for_each render_question (display_order (snd p)))"

definition positional_events :: "nat \<times> json \<Rightarrow> ui list" where
  "positional_events p =
     St_subheader [Lit ''Topic '', Lit (str_nat (fst p + 1))]
     # concat (map (\<lambda>b. fst (render_question b)) (dict_bodies (snd p)))"

definition named_events :: "json \<times> json \<Rightarrow> ui list" where
  "named_events p =
     St_subheader [Fmt (fst p)]
     # concat (map (\<lambda>b. fst (render_question b)) (display_order (snd p)))"

text \<open>
  The follow-up questions of a body have the expected shape: the value under
  \<^verbatim>\<open>follow-up\<close> is a list of \<^verbatim>\<open>dict\<close>s whose \<^verbatim>\<open>question\<close> is a \<^verbatim>\<open>dict\<close>, or it is
  absent or false.
\<close>

definition follow_up_ok :: "json \<Rightarrow> bool" where
  "follow_up_ok fu_item =
     (case fu_item of
        JObj kvs \<Rightarrow> (case map_of kvs ''question'' of Some (JObj q) \<Rightarrow> True | _ \<Rightarrow> False)
      | _ \<Rightarrow> False)"

definition follow_ups_ok :: "py_dict \<Rightarrow> bool" where
  "follow_ups_ok body =
     (case dict_get body ''follow-up'' (JList []) of
        JList fus \<Rightarrow> list_all follow_up_ok fus
      | v \<Rightarrow> \<not> py_truthy v)"

text \<open>The question ids on the question lines among the events, in order.\<close>

definition question_id_of :: "ui \<Rightarrow> json option" where
  "question_id_of ev =
     (case ev of
        St_markdown [Lit h, Fmt q, Lit t, Fmt x] \<Rightarrow>
          if h = ''**Question '' then Some q else None
      | _ \<Rightarrow> None)"

definition shown_question_ids :: "ui list \<Rightarrow> json list" where
  "shown_question_ids es = List.map_filter question_id_of es"

text \<open>
  A decoder for the examples: on the text \<^verbatim>\<open>{}\<close> it returns the empty \<^verbatim>\<open>dict\<close>, as
  \<^verbatim>\<open>json.loads\<close> does, and it rejects every other text. The examples apply it to
  \<^verbatim>\<open>{}\<close> and to texts that are not JSON. The theorems hold for every decoder.
\<close>

definition loads_example :: "string \<Rightarrow> py_error + json" where
  "loads_example s = (if s = ''{}'' then Inr (JObj []) else Inl JSONDecodeError)"

text \<open>No event of a list is a button.\<close>

definition no_button :: "ui list \<Rightarrow> bool" where
  "no_button es = (\<forall>ev \<in> set es. case ev of St_button b \<Rightarrow> False | _ \<Rightarrow> True)"

section \<open>The polling loop\<close>

text \<open>
  C3. A poll tick is a run of the script in which the guard of line 133 holds. If the
  status it fetches is not terminal, the script sleeps 2 seconds and reruns with the
  guard still true, so the next run polls again. If the status is terminal
  (\<^verbatim>\<open>SUCCEEDED\<close>, \<^verbatim>\<open>FAILED\<close>, \<^verbatim>\<open>TIMED_OUT\<close>, \<^verbatim>\<open>ABORTED\<close>) the script
  reruns at once, and if the poll raises it reruns after the 2 seconds; in both cases
  automatic checking is off in the state it reruns with, and the run that follows makes
  no poll, whatever the service would answer.
\<close>

theorem poll_tick_schedule:
  assumes "poll_guard st"
  shows "(resp_status r \<notin> set terminal_statuses \<longrightarrow>
            (\<exists>st'. auto_check_block st (Inr r) = Rerun 2000 st'
                 \<and> execution_status st' = Some (resp_status r)
                 \<and> auto_check st' \<and> (\<forall>r'. auto_check_block st' r' \<noteq> Skipped)))
       \<and> (resp_status r \<in> set terminal_statuses \<longrightarrow>
            (\<exists>st'. auto_check_block st (Inr r) = Rerun 0 st'
                 \<and> execution_status st' = Some (resp_status r)
                 \<and> \<not> auto_check st' \<and> (\<forall>r'. auto_check_block st' r' = Skipped)))
       \<and> (\<exists>st'. auto_check_block st (Inl e) = Rerun 2000 st'
                 \<and> execution_status st' = execution_status st
                 \<and> \<not> auto_check st' \<and> (\<forall>r'. auto_check_block st' r' = Skipped))"
  using assms
  by (auto simp: auto_check_block_def auto_check_status_def poll_guard_def Let_def
           split: sum.splits)

theorem poll_tick_schedule_witness:
  "poll_guard \<lparr>session_id = Some ''s'', auto_check = True, uploaded_files = [''s/a.txt''],
               execution_arn = Some ''arn:1'', execution_status = None\<rparr>
   \<and> ''RUNNING'' \<notin> set terminal_statuses
   \<and> ''SUCCEEDED'' \<in> set terminal_statuses
   \<and> auto_check_block \<lparr>session_id = Some ''s'', auto_check = True, uploaded_files = [''s/a.txt''],
               execution_arn = Some ''arn:1'', execution_status = None\<rparr>
         (Inr \<lparr>resp_status = ''RUNNING'', resp_output = None, resp_error = None,
               resp_cause = None\<rparr>)
       = Rerun 2000 \<lparr>session_id = Some ''s'', auto_check = True, uploaded_files = [''s/a.txt''],
               execution_arn = Some ''arn:1'', execution_status = Some ''RUNNING''\<rparr>
   \<and> (\<exists>st'. auto_check_block \<lparr>session_id = Some ''s'', auto_check = True,
               uploaded_files = [''s/a.txt''], execution_arn = Some ''arn:1'',
               execution_status = None\<rparr>
         (Inr \<lparr>resp_status = ''SUCCEEDED'', resp_output = None, resp_error = None,
               resp_cause = None\<rparr>) = Rerun 0 st'
        \<and> \<not> auto_check st' \<and> (\<forall>r'. auto_check_block st' r' = Skipped))"
proof -
  let ?st = "\<lparr>session_id = Some ''s'', auto_check = True, uploaded_files = [''s/a.txt''],
               execution_arn = Some ''arn:1'', execution_status = None\<rparr>"
  let ?run = "\<lparr>resp_status = ''RUNNING'', resp_output = None, resp_error = None,
               resp_cause = None\<rparr>"
  let ?ok = "\<lparr>resp_status = ''SUCCEEDED'', resp_output = None, resp_error = None,
               resp_cause = None\<rparr>"
  have g: "poll_guard ?st"
    by (simp add: poll_guard_def)
  have t1: "''RUNNING'' \<notin> set terminal_statuses" and t2: "''SUCCEEDED'' \<in> set terminal_statuses"
    by (simp_all add: terminal_statuses_def)
  from poll_tick_schedule [OF g, where r = ?run and e = KeyError] t1
  obtain st' where a: "auto_check_block ?st (Inr ?run) = Rerun 2000 st'"
    by auto
  have b: "auto_check_block ?st (Inr ?run)
           = Rerun 2000 (?st\<lparr>execution_status := Some ''RUNNING''\<rparr>)"
    using a by (simp add: auto_check_block_def auto_check_status_def g t1 Let_def)
  from poll_tick_schedule [OF g, where r = ?ok and e = KeyError] t2
  have c: "\<exists>st'. auto_check_block ?st (Inr ?ok) = Rerun 0 st'
        \<and> \<not> auto_check st' \<and> (\<forall>r'. auto_check_block st' r' = Skipped)"
    by auto
  from g t1 t2 b c show ?thesis by simp
qed

section \<open>Staging and launch\<close>

lemma stage_file_paths:
  "file_paths (stage_file sid t f sg)
     = file_paths sg @ (if upload_ok f then [uploaded_key sid f] else [])"
  by (cases "snd f") (simp_all add: stage_file_def show_ui_def Let_def upload_ok_def uploaded_key_def)

lemma stage_file_processed:
  "files_processed (stage_file sid t f sg)
     = files_processed sg + (if upload_ok f then 1 else 0)"
  by (cases "snd f") (simp_all add: stage_file_def show_ui_def Let_def upload_ok_def)

lemma progress_reports_append:
  "progress_reports (xs @ ys) = progress_reports xs @ progress_reports ys"
  by (simp add: progress_reports_def List.map_filter_def)

lemma stage_file_reports:
  "progress_reports (shown (stage_file sid t f sg))
     = progress_reports (shown sg)
       @ (if upload_ok f then [(files_processed sg + 1, t)] else [])"
  by (cases "snd f")
     (simp_all add: stage_file_def show_ui_def Let_def upload_ok_def progress_reports_append,
      simp_all add: progress_reports_def List.map_filter_def)

lemma stage_files_paths:
  "file_paths (stage_files sid t files sg)
     = file_paths sg @ map (uploaded_key sid) (filter upload_ok files)"
  by (induction files arbitrary: sg) (simp_all add: stage_file_paths)

lemma stage_files_processed:
  "files_processed (stage_files sid t files sg)
     = files_processed sg + length (filter upload_ok files)"
  by (induction files arbitrary: sg) (simp_all add: stage_file_processed)

lemma stage_files_reports:
  "progress_reports (shown (stage_files sid t files sg))
     = progress_reports (shown sg)
       @ map (\<lambda>k. (k, t))
           [Suc (files_processed sg) ..< Suc (files_processed sg + length (filter upload_ok files))]"
proof (induction files arbitrary: sg)
  case Nil
  then show ?case by simp
next
  case (Cons f files)
  show ?case
  proof (cases "upload_ok f")
    case True
    have "[Suc m ..< Suc (m + Suc n)] = Suc m # [Suc (Suc m) ..< Suc (Suc (m + n))]" for m n
      by (subst upt_rec) simp
    with True show ?thesis
      by (simp add: Cons.IH stage_file_reports stage_file_processed)
  next
    case False
    then show ?thesis
      by (simp add: Cons.IH stage_file_reports stage_file_processed)
  qed
qed

lemma stage_files_errors:
  "St_error [Lit ''Error uploading '', Lit name, Lit '': '', FmtErr e]
     \<in> set (shown (stage_files sid t (xs @ (name, Some e) # ys) sg))"
proof -
  have mono: "\<And>sg x. x \<in> set (shown sg) \<Longrightarrow> x \<in> set (shown (stage_files sid t ys sg))" for ys
  proof (induction ys)
    case Nil
    then show ?case by simp
  next
    case (Cons f fs)
    have "x \<in> set (shown (stage_file sid t f sg))"
      using Cons.prems by (cases "snd f") (simp_all add: stage_file_def show_ui_def Let_def)
    then show ?case by (simp add: Cons.IH)
  qed
  have app: "\<And>sg. stage_files sid t (as @ bs) sg = stage_files sid t bs (stage_files sid t as sg)" for as bs
    by (induction as) simp_all
  show ?thesis
    by (simp add: app, rule mono) (simp add: stage_file_def show_ui_def Let_def)
qed

lemma stage_paths:
  "file_paths (stage sid user_text now text_outcome files)
     = (if py_strip user_text \<noteq> [] \<and> text_outcome = None then [text_key sid now] else [])
       @ map (uploaded_key sid) (filter upload_ok files)"
  by (cases text_outcome)
     (simp_all add: stage_def stage_text_def show_ui_def Let_def stage_files_paths text_key_def)

lemma stage_reports:
  "progress_reports (shown (stage sid user_text now text_outcome files))
     = map (\<lambda>k. (k, length files + (if py_strip user_text \<noteq> [] then 1 else 0)))
         [1 ..< Suc (length (filter upload_ok files)
                     + (if py_strip user_text \<noteq> [] \<and> text_outcome = None then 1 else 0))]"
proof -
  have pr: "progress_reports [St_progress_bar, St_placeholder a] = []"
       "progress_reports [St_progress_bar, St_placeholder a, St_text m] = []"
       "progress_reports [St_progress_bar, St_placeholder a, St_text m, St_error m'] = []"
       "progress_reports [St_progress_bar, St_placeholder a, St_text m, St_progress n d] = [(n, d)]"
    for a m m' n d
    by (simp_all add: progress_reports_def List.map_filter_def)
  have step: "[Suc 0 ..< Suc (Suc n)] = Suc 0 # [Suc (Suc 0) ..< Suc (Suc n)]" for n
    by (rule upt_conv_Cons) simp
  show ?thesis
  proof (cases "py_strip user_text \<noteq> [] \<and> text_outcome = None")
    case True
    then show ?thesis
      by (simp add: stage_def stage_text_def show_ui_def Let_def stage_files_reports pr step
               del: upt_Suc)
  next
    case False
    then show ?thesis
      by (cases text_outcome)
         (simp_all add: stage_def stage_text_def show_ui_def Let_def stage_files_reports pr
               del: upt_Suc)
  qed
qed

lemma stage_file_shown:
  "shown (stage_file sid t f sg) = shown sg @ file_events t (files_processed sg) (f # fs) 0"
  by (cases "snd f") (simp_all add: stage_file_def show_ui_def Let_def file_events_def upload_ok_def)

lemma file_events_Cons_Suc:
  "file_events t d (f # fs) (Suc i) = file_events t (d + (if upload_ok f then 1 else 0)) fs i"
  by (simp add: file_events_def split: option.split)

lemma stage_files_shown:
  "shown (stage_files sid t files sg)
     = shown sg @ concat (map (file_events t (files_processed sg) files) [0 ..< length files])"
proof (induction files arbitrary: sg)
  case Nil
  then show ?case by simp
next
  case (Cons f fs)
  have idx: "[0 ..< length (f # fs)] = 0 # map Suc [0 ..< length fs]"
    by (simp add: upt_conv_Cons map_Suc_upt del: upt_Suc)
  show ?case
    by (simp only: stage_files.simps Cons.IH idx list.map concat.simps map_map o_def
          file_events_Cons_Suc stage_file_shown [where fs = fs] stage_file_processed
          append_assoc)
qed

lemma stage_shown:
  "shown (stage sid user_text now text_outcome files)
     = [St_progress_bar, St_placeholder ''upload_status'']
       @ (if py_strip user_text \<noteq> []
          then text_events (total_items user_text files) now text_outcome else [])
       @ concat (map (file_events (total_items user_text files)
                        (if py_strip user_text \<noteq> [] \<and> text_outcome = None then 1 else 0) files)
                   [0 ..< length files])"
  by (cases text_outcome)
     (simp_all add: stage_def stage_text_def show_ui_def Let_def stage_files_shown text_events_def
        total_items_def)

lemma drop_to_suffix: "drop (length (a @ b) - length b) (a @ b) = b"
  by simp

lemma text_key_matches: "matches_user_input sid (text_key sid now)"
proof -
  have "drop (length (text_key sid now) - 4) (text_key sid now) = ''.txt''"
    using drop_to_suffix [of "sid @ ''/user_input_'' @ str_int now" "''.txt''"]
    by (simp add: text_key_def)
  then show ?thesis
    by (simp add: matches_user_input_def Let_def) (simp add: text_key_def)
qed

lemma uploaded_key_matches:
  "matches_user_input sid (uploaded_key sid f) = name_matches (fst f)"
proof -
  have "drop (length sid + 1 + length n - 4) (sid @ ''/'' @ n) = drop (length n - 4) n"
    if "15 \<le> length n" for n :: string
    using that by (simp add: drop_Cons')
  then show ?thesis
    by (auto simp: matches_user_input_def uploaded_key_def name_matches_def Let_def)
qed

lemma stage_count:
  "length (file_paths (stage sid user_text now text_outcome files))
     + failed_items user_text text_outcome files = total_items user_text files"
proof -
  have "length (filter upload_ok files) + length (filter (\<lambda>f. snd f \<noteq> None) files) = length files"
    using sum_length_filter_compl [of upload_ok files] by (simp add: upload_ok_def [abs_def])
  then show ?thesis
    by (auto simp: stage_paths failed_items_def total_items_def)
qed

text \<open>
  C6. A file whose upload raises is reported with an error that names it, and the keys
  returned are those of the same submission without that file: the files before and
  after it are staged as if it were not there. The number of keys is the number of items
  of the submission less the number of items whose upload raised: when exactly one of
  \<open>M\<close> items fails, \<open>M - 1\<close> keys are returned.
\<close>

theorem failed_upload_excluded:
  "file_paths (stage sid user_text now text_outcome (xs @ (name, Some e) # ys))
     = file_paths (stage sid user_text now text_outcome (xs @ ys))
   \<and> St_error [Lit ''Error uploading '', Lit name, Lit '': '', FmtErr e]
       \<in> set (shown (stage sid user_text now text_outcome (xs @ (name, Some e) # ys)))
   \<and> length (file_paths (stage sid user_text now text_outcome files))
       = total_items user_text files - failed_items user_text text_outcome files
   \<and> (failed_items user_text text_outcome files = 1 \<longrightarrow>
        length (file_paths (stage sid user_text now text_outcome files))
          = total_items user_text files - 1)"
proof -
  have 1: "file_paths (stage sid user_text now text_outcome (xs @ (name, Some e) # ys))
     = file_paths (stage sid user_text now text_outcome (xs @ ys))"
    by (simp add: stage_paths upload_ok_def)
  have 2: "St_error [Lit ''Error uploading '', Lit name, Lit '': '', FmtErr e]
       \<in> set (shown (stage sid user_text now text_outcome (xs @ (name, Some e) # ys)))"
    by (simp add: stage_def Let_def stage_files_errors)
  have 3: "length (file_paths (stage sid user_text now text_outcome files))
       = total_items user_text files - failed_items user_text text_outcome files"
    using stage_count [of sid user_text now text_outcome files] by arith
  from 1 2 3 show ?thesis
    by simp
qed

theorem failed_upload_excluded_witness:
  "failed_items [] None
       [(''a.pdf'', None), (''b.txt'', Some (ClientError ''AccessDenied'')), (''c.txt'', None)] = 1
   \<and> total_items []
       [(''a.pdf'', None), (''b.txt'', Some (ClientError ''AccessDenied'')), (''c.txt'', None)] = 3
   \<and> file_paths (stage ''s1'' [] 1700000000 None
         [(''a.pdf'', None), (''b.txt'', Some (ClientError ''AccessDenied'')), (''c.txt'', None)])
       = [''s1/a.pdf'', ''s1/c.txt'']
   \<and> length (file_paths (stage ''s1'' [] 1700000000 None
         [(''a.pdf'', None), (''b.txt'', Some (ClientError ''AccessDenied'')), (''c.txt'', None)]))
       = 3 - 1
   \<and> St_error [Lit ''Error uploading '', Lit ''b.txt'', Lit '': '', FmtErr (ClientError ''AccessDenied'')]
       \<in> set (shown (stage ''s1'' [] 1700000000 None
         [(''a.pdf'', None), (''b.txt'', Some (ClientError ''AccessDenied'')), (''c.txt'', None)]))"
proof -
  let ?files = "[(''a.pdf'', None), (''b.txt'', Some (ClientError ''AccessDenied'')), (''c.txt'', None)]"
  have f: "failed_items [] None ?files = 1" and t: "total_items [] ?files = 3"
    by (simp_all add: failed_items_def total_items_def py_strip_def)
  have k: "file_paths (stage ''s1'' [] 1700000000 None [(''a.pdf'', None), (''c.txt'', None)])
             = [''s1/a.pdf'', ''s1/c.txt'']"
    by (simp add: stage_paths upload_ok_def uploaded_key_def py_strip_def)
  from failed_upload_excluded [of "''s1''" "[]" 1700000000 None "[(''a.pdf'', None)]" "''b.txt''"
          "ClientError ''AccessDenied''" "[(''c.txt'', None)]" ?files] f t k
  show ?thesis
    by simp
qed

text \<open>
  C7, amended. If the text is not blank after \<^verbatim>\<open>strip()\<close> and its upload and the
  uploads of all \<open>N\<close> files return, the keys are \<open>N + 1\<close>: first the key
  \<^verbatim>\<open>{session_id}/user_input_{timestamp}.txt\<close> of the text, which matches
  \<^verbatim>\<open>{session_id}/user_input_*.txt\<close>, then the keys \<^verbatim>\<open>{session_id}/{name}\<close> of the
  files in their order. It is the only key matching the pattern when no uploaded file is
  itself named \<^verbatim>\<open>user_input_*.txt\<close>.
\<close>

theorem text_staged_first:
  assumes "py_strip user_text \<noteq> []" and "\<forall>f \<in> set files. snd f = None"
  shows "file_paths (stage sid user_text now None files)
           = (sid @ ''/'' @ ''user_input_'' @ str_int now @ ''.txt'')
             # map (\<lambda>f. sid @ ''/'' @ fst f) files
       \<and> length (file_paths (stage sid user_text now None files)) = length files + 1
       \<and> matches_user_input sid (sid @ ''/'' @ ''user_input_'' @ str_int now @ ''.txt'')
       \<and> ((\<forall>f \<in> set files. \<not> name_matches (fst f)) \<longrightarrow>
            length (filter (matches_user_input sid)
                      (file_paths (stage sid user_text now None files))) = 1)"
proof -
  have ok: "filter upload_ok files = files"
    using assms(2) by (induction files) (simp_all add: upload_ok_def)
  have paths: "file_paths (stage sid user_text now None files)
           = text_key sid now # map (uploaded_key sid) files"
    using assms(1) by (simp add: stage_paths ok)
  have none: "filter (matches_user_input sid) (map (uploaded_key sid) files) = []"
    if "\<forall>f \<in> set files. \<not> name_matches (fst f)"
    using that by (induction files) (simp_all add: uploaded_key_matches)
  show ?thesis
    using paths none text_key_matches [of sid now]
    by (simp add: text_key_def uploaded_key_def)
qed

theorem text_staged_first_witness:
  "py_strip '' flood report '' \<noteq> []
   \<and> \<not> name_matches ''a.pdf'' \<and> \<not> name_matches ''b.txt''
   \<and> file_paths (stage ''s1'' '' flood report '' 1700000000 None [(''a.pdf'', None), (''b.txt'', None)])
       = [''s1/user_input_1700000000.txt'', ''s1/a.pdf'', ''s1/b.txt'']
   \<and> length (filter (matches_user_input ''s1'')
         (file_paths (stage ''s1'' '' flood report '' 1700000000 None
            [(''a.pdf'', None), (''b.txt'', None)]))) = 1"
proof -
  have a: "py_strip '' flood report '' \<noteq> []"
    by (simp add: py_strip_def py_isspace_def)
  have b: "\<forall>f \<in> set [(''a.pdf'', None), (''b.txt'', None)]. snd f = (None :: py_error option)"
    by simp
  have c: "\<forall>f \<in> set [(''a.pdf'', None :: py_error option), (''b.txt'', None)]. \<not> name_matches (fst f)"
    by (simp add: name_matches_def)
  have d: "str_int 1700000000 = ''1700000000''"
    by (simp add: str_int_def str_nat.simps digit_char_def)
  from text_staged_first [OF a b, of "''s1''" 1700000000] a b c d show ?thesis
    by (auto simp: matches_user_input_def)
qed

text \<open>
  C7 as stated fails when an uploaded file is itself named \<^verbatim>\<open>user_input_*.txt\<close>:
  with the text \<^verbatim>\<open>flood\<close> and the file \<^verbatim>\<open>user_input_notes.txt\<close>, both uploaded, two
  of the two keys match the pattern.
\<close>

theorem text_staged_first_counterexample:
  "py_strip ''flood'' \<noteq> []
   \<and> file_paths (stage ''s1'' ''flood'' 1700000000 None [(''user_input_notes.txt'', None)])
       = [''s1/user_input_1700000000.txt'', ''s1/user_input_notes.txt'']
   \<and> length (filter (matches_user_input ''s1'')
         (file_paths (stage ''s1'' ''flood'' 1700000000 None [(''user_input_notes.txt'', None)]))) = 2"
proof -
  have a: "py_strip ''flood'' \<noteq> []"
    by (simp add: py_strip_def py_isspace_def)
  have d: "str_int 1700000000 = ''1700000000''"
    by (simp add: str_int_def str_nat.simps digit_char_def)
  have p: "file_paths (stage ''s1'' ''flood'' 1700000000 None [(''user_input_notes.txt'', None)])
       = [text_key ''s1'' 1700000000, uploaded_key ''s1'' (''user_input_notes.txt'', None)]"
    using a by (simp add: stage_paths upload_ok_def)
  have m: "name_matches ''user_input_notes.txt''"
    by (simp add: name_matches_def)
  show ?thesis
    using a m by (simp add: p text_key_matches uploaded_key_matches)
                 (simp add: text_key_def uploaded_key_def d)
qed

text \<open>
  C8, amended. The page shows, for each item of the submission in turn (the text item
  first, then the files), the status line naming it and then, when its upload returned,
  one progress call with the number of items uploaded so far over the number of items of
  the submission, and, when its upload raised, the error and no progress call. So the
  progress calls are \<open>1 / total\<close>, \<open>2 / total\<close>, ..., one right after each item that was
  uploaded.
\<close>

theorem progress_after_each_success:
  "shown (stage sid user_text now text_outcome files)
     = [St_progress_bar, St_placeholder ''upload_status'']
       @ (if py_strip user_text \<noteq> []
          then text_events (total_items user_text files) now text_outcome else [])
       @ concat (map (file_events (total_items user_text files)
                        (if py_strip user_text \<noteq> [] \<and> text_outcome = None then 1 else 0) files)
                   [0 ..< length files])
   \<and> progress_reports (shown (stage sid user_text now text_outcome files))
     = map (\<lambda>k. (k, length files + (if py_strip user_text \<noteq> [] then 1 else 0)))
         [1 ..< Suc (length (filter (\<lambda>f. snd f = None) files)
                     + (if py_strip user_text \<noteq> [] \<and> text_outcome = None then 1 else 0))]"
  using stage_reports [of sid user_text now text_outcome files]
    stage_shown [of sid user_text now text_outcome files]
  by (simp add: upload_ok_def [abs_def])

theorem progress_after_each_success_witness:
  "shown (stage ''s1'' ''flood'' 1700000000 None
      [(''a.pdf'', None), (''b.txt'', Some (ClientError ''AccessDenied'')), (''c.txt'', None)])
     = [St_progress_bar, St_placeholder ''upload_status'',
        St_text [Lit ''Uploading user-entered text as '', Lit ''user_input_1700000000.txt'', Lit ''...''],
        St_progress 1 4,
        St_text [Lit ''Uploading '', Lit ''a.pdf'', Lit ''...''],
        St_progress 2 4,
        St_text [Lit ''Uploading '', Lit ''b.txt'', Lit ''...''],
        St_error [Lit ''Error uploading '', Lit ''b.txt'', Lit '': '', FmtErr (ClientError ''AccessDenied'')],
        St_text [Lit ''Uploading '', Lit ''c.txt'', Lit ''...''],
        St_progress 3 4]
   \<and> progress_reports (shown (stage ''s1'' ''flood'' 1700000000 None
      [(''a.pdf'', None), (''b.txt'', Some (ClientError ''AccessDenied'')), (''c.txt'', None)]))
     = [(1, 4), (2, 4), (3, 4)]"
proof -
  have a: "py_strip ''flood'' \<noteq> []"
    by (simp add: py_strip_def py_isspace_def)
  have u: "[1 ..< 4] = [1, 2, 3::nat]" "[0 ..< 3] = [0, 1, 2::nat]"
    by (simp_all add: upt_rec)
  have d: "str_int 1700000000 = ''1700000000''"
    by (simp add: str_int_def str_nat.simps digit_char_def)
  note t = progress_after_each_success [of "''s1''" "''flood''" 1700000000 None
      "[(''a.pdf'', None), (''b.txt'', Some (ClientError ''AccessDenied'')), (''c.txt'', None)]"]
  have s: "shown (stage ''s1'' ''flood'' 1700000000 None
      [(''a.pdf'', None), (''b.txt'', Some (ClientError ''AccessDenied'')), (''c.txt'', None)])
     = [St_progress_bar, St_placeholder ''upload_status'',
        St_text [Lit ''Uploading user-entered text as '', Lit ''user_input_1700000000.txt'', Lit ''...''],
        St_progress 1 4,
        St_text [Lit ''Uploading '', Lit ''a.pdf'', Lit ''...''],
        St_progress 2 4,
        St_text [Lit ''Uploading '', Lit ''b.txt'', Lit ''...''],
        St_error [Lit ''Error uploading '', Lit ''b.txt'', Lit '': '', FmtErr (ClientError ''AccessDenied'')],
        St_text [Lit ''Uploading '', Lit ''c.txt'', Lit ''...''],
        St_progress 3 4]"
    using a u d t [THEN conjunct1]
    by (simp add: total_items_def text_events_def file_events_def upload_ok_def)
  have r: "progress_reports (shown (stage ''s1'' ''flood'' 1700000000 None
      [(''a.pdf'', None), (''b.txt'', Some (ClientError ''AccessDenied'')), (''c.txt'', None)]))
     = [(1, 4), (2, 4), (3, 4)]"
    using a u t [THEN conjunct2]
    by simp
  show ?thesis
    by (rule conjI [OF s r])
qed

text \<open>
  C8 as stated fails for an item whose upload raises: of two files, the first failing,
  the first file is followed by its error and no progress call, and the only report is
  \<open>1 / 2\<close>, after the second file; \<open>2 / 2\<close> is never reported.
\<close>

theorem progress_after_each_item_counterexample:
  "shown (stage ''s1'' [] 1700000000 None
      [(''a.pdf'', Some (ClientError ''AccessDenied'')), (''b.txt'', None)])
     = [St_progress_bar, St_placeholder ''upload_status'',
        St_text [Lit ''Uploading '', Lit ''a.pdf'', Lit ''...''],
        St_error [Lit ''Error uploading '', Lit ''a.pdf'', Lit '': '', FmtErr (ClientError ''AccessDenied'')],
        St_text [Lit ''Uploading '', Lit ''b.txt'', Lit ''...''],
        St_progress 1 2]
   \<and> progress_reports (shown (stage ''s1'' [] 1700000000 None
      [(''a.pdf'', Some (ClientError ''AccessDenied'')), (''b.txt'', None)])) = [(1, 2)]
   \<and> progress_reports (shown (stage ''s1'' [] 1700000000 None
      [(''a.pdf'', Some (ClientError ''AccessDenied'')), (''b.txt'', None)])) \<noteq> [(1, 2), (2, 2)]"
  by (simp add: stage_reports py_strip_def upload_ok_def)
     (simp add: stage_def stage_file_def show_ui_def Let_def py_strip_def)

text \<open>
  C5. When \<^verbatim>\<open>start_execution\<close> raises, the launch block shows the error and leaves the
  session state as it was; in the whole \<^verbatim>\<open>Process Content\<close> block the execution
  handle and the automatic-check flag keep their values, and the script does not rerun.
\<close>

theorem launch_failure_keeps_state:
  "launch st (Inl e)
     = (st, [St_placeholder ''starting_msg'',
             St_info [Lit ''Starting document processing pipeline...''],
             St_empty ''starting_msg'',
             St_error [Lit ''Error starting Step Function: '', FmtErr e]], False)
   \<and> execution_arn (fst (process_content st files user_text b new_id now text_outcome (Inl e)))
       = execution_arn st
   \<and> auto_check (fst (process_content st files user_text b new_id now text_outcome (Inl e)))
       = auto_check st
   \<and> \<not> snd (snd (process_content st files user_text b new_id now text_outcome (Inl e)))"
  by (simp add: launch_def process_content_def Let_def split: prod.splits)

theorem launch_failure_keeps_state_witness:
  "launch \<lparr>session_id = Some ''s1'', auto_check = False, uploaded_files = [''s1/a.pdf''],
            execution_arn = None, execution_status = None\<rparr> (Inl (ClientError ''Throttled''))
     = (\<lparr>session_id = Some ''s1'', auto_check = False, uploaded_files = [''s1/a.pdf''],
            execution_arn = None, execution_status = None\<rparr>,
        [St_placeholder ''starting_msg'',
         St_info [Lit ''Starting document processing pipeline...''],
         St_empty ''starting_msg'',
         St_error [Lit ''Error starting Step Function: '', FmtErr (ClientError ''Throttled'')]],
        False)
   \<and> execution_arn (fst (process_content
         \<lparr>session_id = None, auto_check = False, uploaded_files = [],
            execution_arn = None, execution_status = None\<rparr>
         [(''a.pdf'', None)] [] True ''s1'' 1700000000 None (Inl (ClientError ''Throttled'')))) = None
   \<and> \<not> auto_check (fst (process_content
         \<lparr>session_id = None, auto_check = False, uploaded_files = [],
            execution_arn = None, execution_status = None\<rparr>
         [(''a.pdf'', None)] [] True ''s1'' 1700000000 None (Inl (ClientError ''Throttled''))))"
  using launch_failure_keeps_state [of
      "\<lparr>session_id = Some ''s1'', auto_check = False, uploaded_files = [''s1/a.pdf''],
            execution_arn = None, execution_status = None\<rparr>" "ClientError ''Throttled''"]
    launch_failure_keeps_state [of
      "\<lparr>session_id = None, auto_check = False, uploaded_files = [],
            execution_arn = None, execution_status = None\<rparr>" "ClientError ''Throttled''"
      "[(''a.pdf'', None)]" "[]" True "''s1''" 1700000000 None]
  by simp

section \<open>Rendering a succeeded execution\<close>

subsection \<open>Blocks\<close>

lemma seq_emit_Nil [simp]: "seq (emit []) r = r"
  by (cases r) (simp add: seq_def emit_def)

lemma seq_emit: "seq (emit es) r = (es @ fst r, snd r)"
  by (cases r) (simp add: seq_def emit_def)

lemma snd_seq: "snd (seq a b) = None \<longleftrightarrow> snd a = None \<and> snd b = None"
  by (cases a; cases b) (auto simp: seq_def split: option.splits)

lemma for_each_cong:
  "(\<And>x. x \<in> set xs \<Longrightarrow> f x = g x) \<Longrightarrow> for_each f xs = for_each g xs"
  by (induction xs) simp_all

lemma for_each_None:
  "(\<And>x. x \<in> set xs \<Longrightarrow> snd (f x) = None) \<Longrightarrow> snd (for_each f xs) = None"
  by (induction xs) (simp_all add: snd_seq emit_def)

lemma for_each_skip:
  "f x = emit [] \<Longrightarrow> for_each f (xs @ x # ys) = for_each f (xs @ ys)"
  by (induction xs) simp_all

subsection \<open>Items and their bodies\<close>

lemma item_body_dict: "item_body (JObj kvs) = Inr (body_of (JObj kvs))"
proof (cases "map_of kvs ''body''")
  case None
  then have "''body'' \<notin> set (map fst kvs)"
    by (simp add: map_of_eq_None_iff)
  with None show ?thesis
    by (simp add: item_body_def body_of_def)
next
  case (Some v)
  then have "''body'' \<in> set (map fst kvs)"
    by (metis map_of_eq_None_iff option.distinct(1) set_map)
  with Some show ?thesis
    by (cases v) (simp_all add: item_body_def body_of_def)
qed

lemma collect_questions_dicts:
  "list_all is_dict items \<Longrightarrow>
   collect_questions items acc = Inr (acc @ List.map_filter body_of items)"
proof (induction items arbitrary: acc)
  case Nil
  then show ?case by (simp add: List.map_filter_def)
next
  case (Cons item items)
  then obtain kvs where item: "item = JObj kvs"
    by (cases item) simp_all
  show ?case
    using Cons by (cases "body_of (JObj kvs)") (simp_all add: item item_body_dict List.map_filter_def)
qed

lemma collect_questions_skip:
  "item_body x = Inr None \<Longrightarrow>
   collect_questions (xs @ x # ys) acc = collect_questions (xs @ ys) acc"
  by (induction xs arbitrary: acc) (simp_all split: sum.splits option.splits)

lemma render_item_dict:
  "render_item (JObj kvs)
     = (case body_of (JObj kvs) of None \<Rightarrow> emit [] | Some body \<Rightarrow> render_question body)"
  by (simp add: render_item_def item_body_dict try_value_def)

lemma render_items_dicts:
  "list_all is_dict items \<Longrightarrow>
   for_each render_item items = for_each render_question (List.map_filter body_of items)"
proof (induction items)
  case Nil
  then show ?case by (simp add: List.map_filter_def)
next
  case (Cons item items)
  then obtain kvs where item: "item = JObj kvs"
    by (cases item) simp_all
  show ?case
    using Cons
    by (cases "body_of (JObj kvs)") (simp_all add: item render_item_dict List.map_filter_def)
qed

lemma render_positional_dicts:
  "list_of_dicts d \<Longrightarrow>
   render_positional_topic (i, d)
     = seq (emit [St_subheader [Lit ''Topic '', Lit (str_nat (i + 1))]])
         (for_each render_question (dict_bodies d))"
  by (cases d)
     (simp_all add: list_of_dicts_def render_positional_topic_def try_value_def dict_bodies_def
        render_items_dicts)

subsection \<open>Sorting by question id\<close>

lemma question_keys_Inr:
  "question_keys qs = Inr kqs \<Longrightarrow>
   map snd kqs = qs \<and> (\<forall>p \<in> set kqs. question_key (snd p) = Inr (fst p))"
  by (induction qs arbitrary: kqs) (auto split: sum.splits)

lemma question_keys_of_keyed:
  "\<forall>p \<in> set kqs. question_key (snd p) = Inr (fst p) \<Longrightarrow> question_keys (map snd kqs) = Inr kqs"
  by (induction kqs) auto

lemma question_keys_total:
  "\<forall>q \<in> set qs. \<exists>k. question_key q = Inr k \<Longrightarrow> \<exists>kqs. question_keys qs = Inr kqs"
  by (induction qs) auto

lemma sorted_questions_props:
  assumes "sorted_questions qs = Inr sqs"
  shows "ascending_by_id sqs \<and> mset sqs = mset qs"
proof -
  from assms obtain kqs where k: "question_keys qs = Inr kqs"
    and s: "sqs = map snd (sort_key fst kqs)"
    by (auto simp: sorted_questions_def split: sum.splits)
  from question_keys_Inr [OF k]
  have m: "map snd kqs = qs" and a: "\<forall>p \<in> set kqs. question_key (snd p) = Inr (fst p)"
    by simp_all
  have "question_keys sqs = Inr (sort_key fst kqs)"
    unfolding s using a by (intro question_keys_of_keyed) simp
  then have "ascending_by_id sqs"
    by (simp add: ascending_by_id_def)
  moreover have "mset sqs = mset qs"
    unfolding s using m by (metis mset_map mset_sort)
  ultimately show ?thesis by simp
qed

lemma display_order_props:
  assumes "\<forall>b \<in> set (dict_bodies d). \<exists>k. question_key b = Inr k"
  shows "sorted_questions (dict_bodies d) = Inr (display_order d)"
    and "ascending_by_id (display_order d)"
    and "mset (display_order d) = mset (dict_bodies d)"
proof -
  from question_keys_total [OF assms] obtain kqs where "question_keys (dict_bodies d) = Inr kqs"
    by blast
  then show 1: "sorted_questions (dict_bodies d) = Inr (display_order d)"
    by (simp add: display_order_def sorted_questions_def)
  from sorted_questions_props [OF 1]
  show "ascending_by_id (display_order d)" and "mset (display_order d) = mset (dict_bodies d)"
    by simp_all
qed

lemma render_named_dicts:
  assumes "list_of_dicts d" and "\<forall>b \<in> set (dict_bodies d). \<exists>k. question_key b = Inr k"
  shows "render_named_topic (name, d)
     = seq (emit [St_subheader [Fmt name]]) (for_each render_question (display_order d))"
proof -
  from assms(1) obtain items where d: "d = JList items" and items: "list_all is_dict items"
    by (cases d) (simp_all add: list_of_dicts_def)
  have c: "collect_questions items [] = Inr (dict_bodies d)"
    using collect_questions_dicts [OF items, of "[]"] by (simp add: d dict_bodies_def)
  show ?thesis
    using display_order_props(1) [OF assms(2)]
    by (simp add: render_named_topic_def try_value_def d c [unfolded d])
qed

subsection \<open>The rendering paths\<close>

lemma in_keys: "map_of kvs k = Some v \<Longrightarrow> k \<in> set (map fst kvs)"
  by (metis map_of_eq_None_iff option.distinct(1) set_map)

lemma render_output_both:
  assumes "map_of payload ''topics'' = Some topics"
      and "map_of payload ''topic_results'' = Some topics_data"
  shows "render_output (JObj payload)
     = seq (emit [St_header [Lit ''Processing Results'']])
         (try_value (py_len topics) (\<lambda>n.
          try_value (py_len topics_data) (\<lambda>m.
            if n = m then
              try_value (py_iter topics) (\<lambda>names.
              try_value (py_iter topics_data) (\<lambda>datas.
                for_each render_named_topic (zip names datas)))
            else
              seq (emit [mismatch_warning])
                (try_value (py_iter topics_data) (\<lambda>datas.
                   for_each render_positional_topic (enumerate 0 datas))))))"
  using in_keys [OF assms(1)] in_keys [OF assms(2)] assms
  by (simp add: render_output_def try_value_def)

lemma render_output_results_only:
  assumes "map_of payload ''topics'' = None"
      and "map_of payload ''topic_results'' = Some topics_data"
  shows "render_output (JObj payload)
     = seq (emit [St_header [Lit ''Processing Results'']])
         (try_value (py_iter topics_data) (\<lambda>datas.
            for_each render_positional_topic (enumerate 0 datas)))"
proof -
  have "''topics'' \<notin> set (map fst payload)"
    using assms(1) by (simp add: map_of_eq_None_iff)
  with in_keys [OF assms(2)] assms(2) show ?thesis
    by (simp add: render_output_def try_value_def)
qed

lemma enumerate_snd: "p \<in> set (enumerate n xs) \<Longrightarrow> snd p \<in> set xs"
  by (cases p) (auto simp: enumerate_eq_zip dest: set_zip_rightD)

lemma zip_snd: "p \<in> set (zip xs ys) \<Longrightarrow> snd p \<in> set ys"
  by (cases p) (auto dest: set_zip_rightD)

lemma for_each_zip_replace:
  "(\<And>n. f (n, x) = f (n, y)) \<Longrightarrow>
   for_each f (zip ns (A @ x # B)) = for_each f (zip ns (A @ y # B))"
proof (induction A arbitrary: ns)
  case Nil
  then show ?case by (cases ns) simp_all
next
  case (Cons a A)
  then show ?case by (cases ns) simp_all
qed

lemma render_follow_up_ok:
  assumes "follow_up_ok fu"
  shows "snd (render_follow_up (i, fu)) = None"
proof (cases fu)
  case (JObj kvs)
  with assms obtain v where v: "map_of kvs ''question'' = Some v"
    by (cases "map_of kvs ''question''") (simp_all add: follow_up_ok_def)
  with assms JObj obtain q where "v = JObj q"
    by (cases v) (simp_all add: follow_up_ok_def)
  with v JObj show ?thesis
    by (simp add: render_follow_up_def try_value_def emit_def dict_get_def)
qed (use assms in \<open>simp_all add: follow_up_ok_def\<close>)

lemma render_question_ok:
  assumes "follow_ups_ok body"
  shows "snd (render_question body) = None"
proof (cases "dict_get body ''follow-up'' (JList [])")
  case (JList fus)
  with assms have all: "list_all follow_up_ok fus"
    by (simp add: follow_ups_ok_def)
  have "snd (for_each render_follow_up (enumerate 0 fus)) = None"
  proof (rule for_each_None)
    fix p assume "p \<in> set (enumerate 0 fus)"
    then have "follow_up_ok (snd p)"
      using all enumerate_snd [of p 0 fus] by (simp add: list_all_iff)
    then show "snd (render_follow_up p) = None"
      using render_follow_up_ok [of "snd p" "fst p"] by simp
  qed
  then show ?thesis
    by (simp add: render_question_def Let_def JList snd_seq try_value_def emit_def)
qed (use assms in \<open>simp_all add: follow_ups_ok_def render_question_def Let_def snd_seq emit_def\<close>)

lemma for_each_quiet:
  "(\<And>x. x \<in> set xs \<Longrightarrow> snd (f x) = None) \<Longrightarrow>
   for_each f xs = (concat (map (\<lambda>x. fst (f x)) xs), None)"
proof (induction xs)
  case Nil
  then show ?case by (simp add: emit_def)
next
  case (Cons x xs)
  then obtain es where "f x = (es, None)"
    by (metis list.set_intros(1) prod.collapse)
  with Cons show ?case
    by (simp add: seq_def)
qed

lemma questions_quiet:
  "\<forall>b \<in> set bs. follow_ups_ok b \<Longrightarrow>
   for_each render_question bs = (concat (map (\<lambda>b. fst (render_question b)) bs), None)"
  by (rule for_each_quiet) (simp add: render_question_ok)

lemma payload_order_quiet:
  "\<forall>b \<in> set (dict_bodies (snd p)). follow_ups_ok b \<Longrightarrow>
   topic_in_payload_order p = (positional_events p, None)"
  by (simp add: topic_in_payload_order_def positional_events_def questions_quiet seq_def emit_def)

lemma id_order_quiet:
  "\<forall>b \<in> set (display_order (snd p)). follow_ups_ok b \<Longrightarrow>
   topic_in_id_order p = (named_events p, None)"
  by (simp add: topic_in_id_order_def named_events_def questions_quiet seq_def emit_def)

lemma topics_quiet:
  "(\<And>p. p \<in> set ps \<Longrightarrow> g p = (ev p, None)) \<Longrightarrow> for_each g ps = (concat (map ev ps), None)"
proof -
  assume a: "\<And>p. p \<in> set ps \<Longrightarrow> g p = (ev p, None)"
  then have "for_each g ps = (concat (map (\<lambda>x. fst (g x)) ps), None)"
    by (intro for_each_quiet) simp
  moreover have "map (\<lambda>x. fst (g x)) ps = map ev ps"
    using a by (intro map_cong) simp_all
  ultimately show ?thesis by simp
qed

lemma render_output_mismatch:
  assumes "map_of payload ''topics'' = Some (JList names)"
      and "map_of payload ''topic_results'' = Some (JList datas)"
      and "length names \<noteq> length datas"
      and "\<forall>d \<in> set datas. list_of_dicts d"
  shows "render_output (JObj payload)
           = seq (emit [St_header [Lit ''Processing Results''], mismatch_warning])
               (for_each topic_in_payload_order (enumerate 0 datas))"
proof -
  have each: "render_positional_topic p = topic_in_payload_order p"
    if "p \<in> set (enumerate 0 datas)" for p
    using render_positional_dicts [of "snd p" "fst p"] assms(4) enumerate_snd [OF that]
    by (simp add: topic_in_payload_order_def)
  show ?thesis
    using assms(3)
      for_each_cong [of "enumerate 0 datas" render_positional_topic topic_in_payload_order,
        OF each]
    by (simp add: render_output_both [OF assms(1,2)] try_value_def seq_emit)
qed

lemma render_output_absent:
  assumes "map_of payload ''topics'' = None"
      and "map_of payload ''topic_results'' = Some (JList datas)"
      and "\<forall>d \<in> set datas. list_of_dicts d"
  shows "render_output (JObj payload)
           = seq (emit [St_header [Lit ''Processing Results'']])
               (for_each topic_in_payload_order (enumerate 0 datas))"
proof -
  have each: "render_positional_topic p = topic_in_payload_order p"
    if "p \<in> set (enumerate 0 datas)" for p
    using render_positional_dicts [of "snd p" "fst p"] assms(3) enumerate_snd [OF that]
    by (simp add: topic_in_payload_order_def)
  show ?thesis
    using for_each_cong [of "enumerate 0 datas" render_positional_topic topic_in_payload_order,
        OF each]
    by (simp add: render_output_results_only [OF assms(1,2)] try_value_def)
qed

lemma render_output_equal:
  assumes "map_of payload ''topics'' = Some (JList names)"
      and "map_of payload ''topic_results'' = Some (JList datas)"
      and "length names = length datas"
      and "\<forall>d \<in> set datas. list_of_dicts d"
      and "\<forall>d \<in> set datas. \<forall>b \<in> set (dict_bodies d). \<exists>k. question_key b = Inr k"
  shows "render_output (JObj payload)
           = seq (emit [St_header [Lit ''Processing Results'']])
               (for_each topic_in_id_order (zip names datas))"
proof -
  have each: "render_named_topic p = topic_in_id_order p" if "p \<in> set (zip names datas)" for p
    using render_named_dicts [of "snd p" "fst p"] assms(4,5) zip_snd [OF that]
    by (simp add: topic_in_id_order_def)
  show ?thesis
    using assms(3) for_each_cong [of "zip names datas" render_named_topic topic_in_id_order, OF each]
    by (simp add: render_output_both [OF assms(1,2)] try_value_def)
qed

lemma payload_order_topics_quiet:
  assumes "\<forall>d \<in> set datas. \<forall>b \<in> set (dict_bodies d). follow_ups_ok b"
  shows "for_each topic_in_payload_order (enumerate 0 datas)
           = (concat (map positional_events (enumerate 0 datas)), None)"
proof (rule topics_quiet)
  fix p assume "p \<in> set (enumerate 0 datas)"
  then have "snd p \<in> set datas"
    by (rule enumerate_snd)
  with assms show "topic_in_payload_order p = (positional_events p, None)"
    by (intro payload_order_quiet) simp
qed

lemma id_order_topics_quiet:
  assumes "\<forall>d \<in> set datas. \<forall>b \<in> set (dict_bodies d). \<exists>k. question_key b = Inr k"
      and "\<forall>d \<in> set datas. \<forall>b \<in> set (dict_bodies d). follow_ups_ok b"
  shows "for_each topic_in_id_order (zip names datas)
           = (concat (map named_events (zip names datas)), None)"
proof (rule topics_quiet)
  fix p assume "p \<in> set (zip names datas)"
  then have d: "snd p \<in> set datas"
    by (rule zip_snd)
  with assms(1) have "mset (display_order (snd p)) = mset (dict_bodies (snd p))"
    using display_order_props(3) by blast
  then have "set (display_order (snd p)) = set (dict_bodies (snd p))"
    by (rule mset_eq_setD)
  with assms(2) d show "topic_in_id_order p = (named_events p, None)"
    by (intro id_order_quiet) simp
qed

lemma rendered_absent:
  assumes "map_of payload ''topics'' = None"
      and "map_of payload ''topic_results'' = Some (JList datas)"
      and "\<forall>d \<in> set datas. list_of_dicts d"
      and "\<forall>d \<in> set datas. \<forall>b \<in> set (dict_bodies d). follow_ups_ok b"
  shows "rendered (JObj payload)
           = St_header [Lit ''Processing Results'']
             # concat (map positional_events (enumerate 0 datas))"
  using render_output_absent [OF assms(1,2,3)] payload_order_topics_quiet [OF assms(4)]
  by (simp add: seq_def emit_def rendered_def)

lemma rendered_mismatch:
  assumes "map_of payload ''topics'' = Some (JList names)"
      and "map_of payload ''topic_results'' = Some (JList datas)"
      and "length names \<noteq> length datas"
      and "\<forall>d \<in> set datas. list_of_dicts d"
      and "\<forall>d \<in> set datas. \<forall>b \<in> set (dict_bodies d). follow_ups_ok b"
  shows "rendered (JObj payload)
           = [St_header [Lit ''Processing Results''], mismatch_warning]
             @ concat (map positional_events (enumerate 0 datas))"
  using render_output_mismatch [OF assms(1,2,3,4)] payload_order_topics_quiet [OF assms(5)]
  by (simp add: seq_def emit_def rendered_def)

lemma rendered_equal:
  assumes "map_of payload ''topics'' = Some (JList names)"
      and "map_of payload ''topic_results'' = Some (JList datas)"
      and "length names = length datas"
      and "\<forall>d \<in> set datas. list_of_dicts d"
      and "\<forall>d \<in> set datas. \<forall>b \<in> set (dict_bodies d). follow_ups_ok b"
      and "\<forall>d \<in> set datas. \<forall>b \<in> set (dict_bodies d). \<exists>k. question_key b = Inr k"
  shows "rendered (JObj payload)
           = St_header [Lit ''Processing Results'']
             # concat (map named_events (zip names datas))"
  using render_output_equal [OF assms(1,2,3,4,6)] id_order_topics_quiet [OF assms(6,5), of names]
  by (simp add: seq_def emit_def rendered_def)

lemmas py_defs =
  dict_get_def question_key_def int_of_str_def int_space_def parse_unsigned_def is_digit_def
  digit_val_def str_nat.simps digit_char_def

lemmas render_defs =
  rendered_def render_output_def render_named_topic_def render_positional_topic_def
  render_item_def item_body_def render_question_def render_follow_up_def sorted_questions_def
  try_value_def seq_def emit_def mismatch_warning_def parse_warning_def

lemmas shape_defs =
  list_of_dicts_def dict_bodies_def body_of_def display_order_def ascending_by_id_def
  shown_question_ids_def question_id_of_def map_filter_simps

lemmas topic_defs =
  topic_in_payload_order_def topic_in_id_order_def positional_events_def named_events_def
  follow_ups_ok_def follow_up_ok_def

text \<open>
  C1, amended. When the payload has a \<^verbatim>\<open>topics\<close> list and a \<^verbatim>\<open>topic_results\<close> list of
  different lengths, every result list is a list of \<^verbatim>\<open>dict\<close>s and the follow-up
  questions of every body have the expected shape, the page shows the header, then the
  warning, then every result list in turn under its positional label \<^verbatim>\<open>Topic 1\<close>,
  \<^verbatim>\<open>Topic 2\<close>, ..., with its questions in the order of the payload (they are not
  sorted), and no exception is raised. Without the condition on the follow-up questions
  the block does the same up to the first question that raises.
\<close>

theorem mismatch_fallback:
  assumes "map_of payload ''topics'' = Some (JList names)"
      and "map_of payload ''topic_results'' = Some (JList datas)"
      and "length names \<noteq> length datas"
      and "\<forall>d \<in> set datas. list_of_dicts d"
  shows "render_output (JObj payload)
           = seq (emit [St_header [Lit ''Processing Results''], mismatch_warning])
               (for_each topic_in_payload_order (enumerate 0 datas))
       \<and> ((\<forall>d \<in> set datas. \<forall>b \<in> set (dict_bodies d). follow_ups_ok b) \<longrightarrow>
            render_output (JObj payload)
              = ([St_header [Lit ''Processing Results''], mismatch_warning]
                 @ concat (map positional_events (enumerate 0 datas)), None)
            \<and> rendered (JObj payload)
              = [St_header [Lit ''Processing Results''], mismatch_warning]
                 @ concat (map positional_events (enumerate 0 datas)))"
  using render_output_mismatch [OF assms] payload_order_topics_quiet [of datas]
  by (simp add: seq_def emit_def rendered_def)

theorem mismatch_fallback_witness:
  "length [JStr ''A''] \<noteq> length
      [JList [JObj [(''body'', JObj [(''question_id'', JInt 2), (''question'', JStr ''q2''),
                                    (''answer'', JStr ''a2'')])],
              JObj [(''body'', JObj [(''question_id'', JInt 1), (''question'', JStr ''q1''),
                                    (''answer'', JStr ''a1''),
                                    (''follow-up'', JList [JObj [(''question'', JObj [(''S'', JStr ''fq'')]),
                                                                (''answer'', JStr ''fa'')]])])]],
       JList []]
   \<and> render_output (JObj
      [(''topics'', JList [JStr ''A'']),
       (''topic_results'', JList
          [JList [JObj [(''body'', JObj [(''question_id'', JInt 2), (''question'', JStr ''q2''),
                                        (''answer'', JStr ''a2'')])],
                  JObj [(''body'', JObj [(''question_id'', JInt 1), (''question'', JStr ''q1''),
                                        (''answer'', JStr ''a1''),
                                        (''follow-up'', JList [JObj [(''question'', JObj [(''S'', JStr ''fq'')]),
                                                                    (''answer'', JStr ''fa'')]])])]],
           JList []])])
     = ([St_header [Lit ''Processing Results''],
         St_warning [Lit ''Topic names and data lengths don't match. Displaying data without topic names.''],
         St_subheader [Lit ''Topic '', Lit ''1''],
         St_markdown [Lit ''**Question '', Fmt (JInt 2), Lit ''**: '', Fmt (JStr ''q2'')],
         St_markdown [Lit ''**Answer**: '', Fmt (JStr ''a2'')],
         St_markdown [Lit ''---''],
         St_markdown [Lit ''**Question '', Fmt (JInt 1), Lit ''**: '', Fmt (JStr ''q1'')],
         St_markdown [Lit ''**Answer**: '', Fmt (JStr ''a1'')],
         St_markdown [Lit ''**Follow-up Questions:**''],
         St_markdown [Lit ''**'', Lit ''1'', Lit ''. '', Fmt (JStr ''fq''), Lit ''**''],
         St_markdown [Lit ''   Answer: '', Fmt (JStr ''fa'')],
         St_markdown [Lit ''---''],
         St_subheader [Lit ''Topic '', Lit ''2'']], None)"
proof -
  let ?datas = "[JList [JObj [(''body'', JObj [(''question_id'', JInt 2), (''question'', JStr ''q2''),
                                    (''answer'', JStr ''a2'')])],
              JObj [(''body'', JObj [(''question_id'', JInt 1), (''question'', JStr ''q1''),
                                    (''answer'', JStr ''a1''),
                                    (''follow-up'', JList [JObj [(''question'', JObj [(''S'', JStr ''fq'')]),
                                                                (''answer'', JStr ''fa'')]])])]],
       JList []]"
  let ?payload = "[(''topics'', JList [JStr ''A'']), (''topic_results'', JList ?datas)]"
  have 1: "map_of ?payload ''topics'' = Some (JList [JStr ''A''])"
    by simp
  have 2: "map_of ?payload ''topic_results'' = Some (JList ?datas)"
    by simp
  have 3: "length [JStr ''A''] \<noteq> length ?datas"
    by simp
  have 4: "\<forall>d \<in> set ?datas. list_of_dicts d"
    by (simp add: list_of_dicts_def)
  have 5: "\<forall>d \<in> set ?datas. \<forall>b \<in> set (dict_bodies d). follow_ups_ok b"
    by (simp add: shape_defs topic_defs dict_get_def)
  from mismatch_fallback [OF 1 2 3 4] 5
  have "render_output (JObj ?payload)
              = ([St_header [Lit ''Processing Results''], mismatch_warning]
                 @ concat (map positional_events (enumerate 0 ?datas)), None)"
    by blast
  with 3 show ?thesis
    by (simp add: enumerate_eq_zip shape_defs topic_defs py_defs render_question_def
          render_follow_up_def try_value_def seq_def emit_def mismatch_warning_def)
qed

text \<open>
  C1 as stated fails on the order: with one topic name and two result lists, the first
  holding the questions 2 and 1 in that order, the page shows question 2 before
  question 1.
\<close>

theorem mismatch_fallback_counterexample:
  "shown_question_ids (rendered (JObj
      [(''topics'', JList [JStr ''A'']),
       (''topic_results'', JList
          [JList [JObj [(''body'', JObj [(''question_id'', JInt 2), (''question'', JStr ''q2''),
                                        (''answer'', JStr ''a2'')])],
                  JObj [(''body'', JObj [(''question_id'', JInt 1), (''question'', JStr ''q1''),
                                        (''answer'', JStr ''a1'')])]],
           JList []])]))
     = [JInt 2, JInt 1]"
  by (simp add: render_defs py_defs shape_defs enumerate_eq_zip)

text \<open>
  C2, amended. When the payload has a \<^verbatim>\<open>topics\<close> list and a \<^verbatim>\<open>topic_results\<close> list of
  equal length, every result list is a list of \<^verbatim>\<open>dict\<close>s, every \<^verbatim>\<open>question_id\<close> that
  is present is one that \<^verbatim>\<open>int()\<close> accepts and the follow-up questions of every body
  have the expected shape, the page shows the header and then every topic name over the
  questions of the result list at the same position, in an order that ascends by
  \<^verbatim>\<open>int(question_id)\<close> and is a rearrangement of the questions of the payload, and no
  exception is raised; a question without \<^verbatim>\<open>question_id\<close> has the key 0. Without the
  condition on the follow-up questions the block does the same up to the first question
  that raises.
\<close>

theorem equal_length_sorted:
  assumes "map_of payload ''topics'' = Some (JList names)"
      and "map_of payload ''topic_results'' = Some (JList datas)"
      and "length names = length datas"
      and "\<forall>d \<in> set datas. list_of_dicts d"
      and "\<forall>d \<in> set datas. \<forall>b \<in> set (dict_bodies d). \<exists>k. question_key b = Inr k"
  shows "render_output (JObj payload)
           = seq (emit [St_header [Lit ''Processing Results'']])
               (for_each topic_in_id_order (zip names datas))
       \<and> (\<forall>d \<in> set datas. ascending_by_id (display_order d)
                            \<and> mset (display_order d) = mset (dict_bodies d))
       \<and> (\<forall>b. map_of b ''question_id'' = None \<longrightarrow> question_key b = Inr 0)
       \<and> ((\<forall>d \<in> set datas. \<forall>b \<in> set (dict_bodies d). follow_ups_ok b) \<longrightarrow>
            render_output (JObj payload)
              = (St_header [Lit ''Processing Results'']
                 # concat (map named_events (zip names datas)), None)
            \<and> rendered (JObj payload)
              = St_header [Lit ''Processing Results'']
                 # concat (map named_events (zip names datas)))"
proof -
  have eq: "render_output (JObj payload)
           = seq (emit [St_header [Lit ''Processing Results'']])
               (for_each topic_in_id_order (zip names datas))"
    by (rule render_output_equal [OF assms])
  have sorted: "\<forall>d \<in> set datas. ascending_by_id (display_order d)
                            \<and> mset (display_order d) = mset (dict_bodies d)"
    using assms(5) display_order_props(2,3) by blast
  have "int_of_str ''0'' = Inr 0"
    by (simp add: int_of_str_def int_space_def parse_unsigned_def is_digit_def digit_val_def)
  then have missing: "\<forall>b. map_of b ''question_id'' = None \<longrightarrow> question_key b = Inr 0"
    by (simp add: question_key_def dict_get_def)
  have quiet: "(\<forall>d \<in> set datas. \<forall>b \<in> set (dict_bodies d). follow_ups_ok b) \<longrightarrow>
            render_output (JObj payload)
              = (St_header [Lit ''Processing Results'']
                 # concat (map named_events (zip names datas)), None)
            \<and> rendered (JObj payload)
              = St_header [Lit ''Processing Results'']
                 # concat (map named_events (zip names datas))"
    using id_order_topics_quiet [OF assms(5), of names]
    by (simp add: eq seq_def emit_def rendered_def)
  from eq sorted missing quiet show ?thesis by blast
qed

theorem equal_length_sorted_witness:
  "question_key [(''question_id'', JStr ''12''), (''question'', JStr ''q12'')] = Inr 12
   \<and> question_key [(''question'', JStr ''q0'')] = Inr 0
   \<and> shown_question_ids (rendered (JObj
      [(''topics'', JList [JStr ''A'', JStr ''B'']),
       (''topic_results'', JList
          [JList [JObj [(''body'', JObj [(''question_id'', JInt 3), (''question'', JStr ''q3'')])],
                  JObj [(''body'', JObj [(''question_id'', JStr ''12''), (''question'', JStr ''q12'')])],
                  JObj [(''body'', JObj [(''question_id'', JInt 2), (''question'', JStr ''q2'')])]],
           JList [JObj [(''body'', JObj [(''question'', JStr ''q0'')])]]])]))
     = [JInt 2, JInt 3, JStr ''12'', JStr ''N/A'']
   \<and> rendered (JObj
      [(''topics'', JList [JStr ''A'', JStr ''B'']),
       (''topic_results'', JList
          [JList [JObj [(''body'', JObj [(''question_id'', JInt 3), (''question'', JStr ''q3'')])],
                  JObj [(''body'', JObj [(''question_id'', JStr ''12''), (''question'', JStr ''q12'')])],
                  JObj [(''body'', JObj [(''question_id'', JInt 2), (''question'', JStr ''q2'')])]],
           JList [JObj [(''body'', JObj [(''question'', JStr ''q0'')])]]])])
     = [St_header [Lit ''Processing Results''],
        St_subheader [Fmt (JStr ''A'')],
        St_markdown [Lit ''**Question '', Fmt (JInt 2), Lit ''**: '', Fmt (JStr ''q2'')],
        St_markdown [Lit ''**Answer**: '', Fmt (JStr ''N/A'')],
        St_markdown [Lit ''---''],
        St_markdown [Lit ''**Question '', Fmt (JInt 3), Lit ''**: '', Fmt (JStr ''q3'')],
        St_markdown [Lit ''**Answer**: '', Fmt (JStr ''N/A'')],
        St_markdown [Lit ''---''],
        St_markdown [Lit ''**Question '', Fmt (JStr ''12''), Lit ''**: '', Fmt (JStr ''q12'')],
        St_markdown [Lit ''**Answer**: '', Fmt (JStr ''N/A'')],
        St_markdown [Lit ''---''],
        St_subheader [Fmt (JStr ''B'')],
        St_markdown [Lit ''**Question '', Fmt (JStr ''N/A''), Lit ''**: '', Fmt (JStr ''q0'')],
        St_markdown [Lit ''**Answer**: '', Fmt (JStr ''N/A'')],
        St_markdown [Lit ''---'']]"
proof -
  let ?datas = "[JList [JObj [(''body'', JObj [(''question_id'', JInt 3), (''question'', JStr ''q3'')])],
                       JObj [(''body'', JObj [(''question_id'', JStr ''12''), (''question'', JStr ''q12'')])],
                       JObj [(''body'', JObj [(''question_id'', JInt 2), (''question'', JStr ''q2'')])]],
                JList [JObj [(''body'', JObj [(''question'', JStr ''q0'')])]]]"
  let ?names = "[JStr ''A'', JStr ''B'']"
  let ?payload = "[(''topics'', JList ?names), (''topic_results'', JList ?datas)]"
  have 1: "map_of ?payload ''topics'' = Some (JList ?names)"
    by simp
  have 2: "map_of ?payload ''topic_results'' = Some (JList ?datas)"
    by simp
  have 3: "length ?names = length ?datas"
    by simp
  have 4: "\<forall>d \<in> set ?datas. list_of_dicts d"
    by (simp add: list_of_dicts_def)
  have 5: "\<forall>d \<in> set ?datas. \<forall>b \<in> set (dict_bodies d). \<exists>k. question_key b = Inr k"
    by (simp add: shape_defs py_defs)
  have 6: "\<forall>d \<in> set ?datas. \<forall>b \<in> set (dict_bodies d). follow_ups_ok b"
    by (simp add: shape_defs topic_defs dict_get_def)
  have 7: "map_of [(''question'', JStr ''q0'')] ''question_id'' = None"
    by simp
  have 8: "question_key [(''question_id'', JStr ''12''), (''question'', JStr ''q12'')] = Inr 12"
    by (simp add: py_defs)
  from equal_length_sorted [OF 1 2 3 4 5] 6
  have r: "rendered (JObj ?payload)
              = St_header [Lit ''Processing Results'']
                 # concat (map named_events (zip ?names ?datas))"
    and k: "question_key [(''question'', JStr ''q0'')] = Inr 0"
    using 7 by blast+
  have e: "St_header [Lit ''Processing Results'']
                 # concat (map named_events (zip ?names ?datas))
     = [St_header [Lit ''Processing Results''],
        St_subheader [Fmt (JStr ''A'')],
        St_markdown [Lit ''**Question '', Fmt (JInt 2), Lit ''**: '', Fmt (JStr ''q2'')],
        St_markdown [Lit ''**Answer**: '', Fmt (JStr ''N/A'')],
        St_markdown [Lit ''---''],
        St_markdown [Lit ''**Question '', Fmt (JInt 3), Lit ''**: '', Fmt (JStr ''q3'')],
        St_markdown [Lit ''**Answer**: '', Fmt (JStr ''N/A'')],
        St_markdown [Lit ''---''],
        St_markdown [Lit ''**Question '', Fmt (JStr ''12''), Lit ''**: '', Fmt (JStr ''q12'')],
        St_markdown [Lit ''**Answer**: '', Fmt (JStr ''N/A'')],
        St_markdown [Lit ''---''],
        St_subheader [Fmt (JStr ''B'')],
        St_markdown [Lit ''**Question '', Fmt (JStr ''N/A''), Lit ''**: '', Fmt (JStr ''q0'')],
        St_markdown [Lit ''**Answer**: '', Fmt (JStr ''N/A'')],
        St_markdown [Lit ''---'']]"
    by (simp add: shape_defs topic_defs py_defs render_question_def sorted_questions_def
          seq_def emit_def)
  from r e k 8 show ?thesis
    by (simp add: shown_question_ids_def question_id_of_def map_filter_simps)
qed

text \<open>
  C2 as stated fails for a \<^verbatim>\<open>question_id\<close> that \<^verbatim>\<open>int()\<close> rejects: the key is not 0,
  \<^verbatim>\<open>int('abc')\<close> raises \<^verbatim>\<open>ValueError\<close>, and the page shows the header, the topic
  name and the warning of line 408, and no question.
\<close>

theorem equal_length_sorted_counterexample:
  "question_key [(''question_id'', JStr ''abc''), (''question'', JStr ''q''), (''answer'', JStr ''a'')]
     = Inl ValueError
   \<and> rendered (JObj
      [(''topics'', JList [JStr ''A'']),
       (''topic_results'', JList
          [JList [JObj [(''body'', JObj [(''question_id'', JStr ''abc''), (''question'', JStr ''q''),
                                        (''answer'', JStr ''a'')])]]])])
     = [St_header [Lit ''Processing Results''], St_subheader [Fmt (JStr ''A'')],
        St_warning [Lit ''Could not parse execution output: '', FmtErr ValueError]]"
  by (simp add: render_defs py_defs)

text \<open>
  C10, amended. An entry of a topic's result list that is a \<^verbatim>\<open>dict\<close> and has no
  \<^verbatim>\<open>body\<close> key, or whose \<^verbatim>\<open>body\<close> is not a \<^verbatim>\<open>dict\<close>, changes nothing: the page
  shows exactly what it shows for the payload without that entry, so the entry adds no
  question and no warning. When the other entries of the result lists are \<^verbatim>\<open>dict\<close>s
  and the follow-up questions of their bodies have the expected shape, the page shows
  the questions of those entries, and nothing of the entry, in each of the three paths:
  under the positional labels in the order of the payload when \<^verbatim>\<open>topics\<close> is absent,
  the same after the warning when \<^verbatim>\<open>topics\<close> is a list of another length, and under
  the topic names in the order of line 312 when \<^verbatim>\<open>topics\<close> is a list of the same
  length and every \<^verbatim>\<open>question_id\<close> that is present is one that \<^verbatim>\<open>int()\<close> accepts.
\<close>

theorem entry_without_dict_body_skipped:
  assumes "map_of entry ''body'' = None \<or> (\<exists>v. map_of entry ''body'' = Some v \<and> \<not> is_dict v)"
      and "map_of payload ''topic_results''
             = Some (JList (before @ JList (xs @ JObj entry # ys) # after))"
      and "map_of payload' ''topic_results'' = Some (JList (before @ JList (xs @ ys) # after))"
      and "map_of payload' ''topics'' = map_of payload ''topics''"
  shows "rendered (JObj payload) = rendered (JObj payload')
       \<and> dict_bodies (JList (xs @ JObj entry # ys)) = dict_bodies (JList (xs @ ys))
       \<and> ((\<forall>d \<in> set (before @ JList (xs @ ys) # after).
               list_of_dicts d \<and> (\<forall>b \<in> set (dict_bodies d). follow_ups_ok b)) \<longrightarrow>
            (map_of payload ''topics'' = None \<longrightarrow>
               rendered (JObj payload)
                 = St_header [Lit ''Processing Results'']
                   # concat (map positional_events
                               (enumerate 0 (before @ JList (xs @ ys) # after))))
          \<and> (\<forall>names. map_of payload ''topics'' = Some (JList names)
                 \<and> length names \<noteq> length (before @ JList (xs @ ys) # after) \<longrightarrow>
               rendered (JObj payload)
                 = [St_header [Lit ''Processing Results''], mismatch_warning]
                   @ concat (map positional_events
                               (enumerate 0 (before @ JList (xs @ ys) # after))))
          \<and> (\<forall>names. map_of payload ''topics'' = Some (JList names)
                 \<and> length names = length (before @ JList (xs @ ys) # after)
                 \<and> (\<forall>d \<in> set (before @ JList (xs @ ys) # after).
                       \<forall>b \<in> set (dict_bodies d). \<exists>k. question_key b = Inr k) \<longrightarrow>
               rendered (JObj payload)
                 = St_header [Lit ''Processing Results'']
                   # concat (map named_events
                               (zip names (before @ JList (xs @ ys) # after)))))"
proof -
  let ?datas' = "before @ JList (xs @ ys) # after"
  have body: "body_of (JObj entry) = None"
    using assms(1) by (auto simp: body_of_def split: json.splits)
  then have skip: "item_body (JObj entry) = Inr None"
    by (simp add: item_body_dict)
  then have item: "render_item (JObj entry) = emit []"
    by (simp add: render_item_def try_value_def)
  have named: "render_named_topic (n, JList (xs @ JObj entry # ys))
                 = render_named_topic (n, JList (xs @ ys))" for n
    by (simp add: render_named_topic_def try_value_def collect_questions_skip [OF skip])
  have positional: "render_positional_topic (i, JList (xs @ JObj entry # ys))
                 = render_positional_topic (i, JList (xs @ ys))" for i
    by (simp add: render_positional_topic_def try_value_def for_each_skip [of render_item, OF item])
  have pos_all: "for_each render_positional_topic
                   (enumerate 0 (before @ JList (xs @ JObj entry # ys) # after))
               = for_each render_positional_topic (enumerate 0 ?datas')"
    using for_each_zip_replace [of render_positional_topic, OF positional]
    by (simp add: enumerate_eq_zip)
  have out: "render_output (JObj payload) = render_output (JObj payload')"
  proof (cases "map_of payload ''topics''")
    case None
    then show ?thesis
      using assms(4)
      by (simp add: render_output_results_only [OF _ assms(2)]
            render_output_results_only [OF _ assms(3)] try_value_def pos_all)
  next
    case (Some topics)
    then have t': "map_of payload' ''topics'' = Some topics"
      using assms(4) by simp
    show ?thesis
      using for_each_zip_replace [of render_named_topic, OF named]
      by (simp add: render_output_both [OF Some assms(2)] render_output_both [OF t' assms(3)]
            try_value_def pos_all split: sum.splits)
  qed
  then have 1: "rendered (JObj payload) = rendered (JObj payload')"
    by (simp add: rendered_def)
  have 2: "dict_bodies (JList (xs @ JObj entry # ys)) = dict_bodies (JList (xs @ ys))"
    using body by (simp add: dict_bodies_def List.map_filter_def)
  have 3: "rendered (JObj payload)
                 = St_header [Lit ''Processing Results'']
                   # concat (map positional_events (enumerate 0 ?datas'))"
    if "\<forall>d \<in> set ?datas'. list_of_dicts d \<and> (\<forall>b \<in> set (dict_bodies d). follow_ups_ok b)"
       "map_of payload ''topics'' = None"
    using rendered_absent [OF _ assms(3)] that assms(4) 1 by simp
  have 4: "rendered (JObj payload)
                 = [St_header [Lit ''Processing Results''], mismatch_warning]
                   @ concat (map positional_events (enumerate 0 ?datas'))"
    if "\<forall>d \<in> set ?datas'. list_of_dicts d \<and> (\<forall>b \<in> set (dict_bodies d). follow_ups_ok b)"
       "map_of payload ''topics'' = Some (JList names)"
       "length names \<noteq> length ?datas'" for names
    using rendered_mismatch [OF _ assms(3) that(3)] that(1,2) assms(4) 1 by simp
  have 5: "rendered (JObj payload)
                 = St_header [Lit ''Processing Results'']
                   # concat (map named_events (zip names ?datas'))"
    if "\<forall>d \<in> set ?datas'. list_of_dicts d \<and> (\<forall>b \<in> set (dict_bodies d). follow_ups_ok b)"
       "map_of payload ''topics'' = Some (JList names)"
       "length names = length ?datas'"
       "\<forall>d \<in> set ?datas'. \<forall>b \<in> set (dict_bodies d). \<exists>k. question_key b = Inr k" for names
    using rendered_equal [OF _ assms(3) that(3)] that(1,2,4) assms(4) 1 by simp
  from 1 2 3 4 5 show ?thesis
    by blast
qed

theorem entry_without_dict_body_skipped_witness:
  "rendered (JObj
        [(''topic_results'', JList
           [JList [JObj [(''note'', JStr ''n/a'')],
                   JObj [(''body'', JObj [(''question_id'', JInt 1), (''question'', JStr ''q1''),
                                         (''answer'', JStr ''a1'')])]]])])
     = [St_header [Lit ''Processing Results''],
        St_subheader [Lit ''Topic '', Lit ''1''],
        St_markdown [Lit ''**Question '', Fmt (JInt 1), Lit ''**: '', Fmt (JStr ''q1'')],
        St_markdown [Lit ''**Answer**: '', Fmt (JStr ''a1'')],
        St_markdown [Lit ''---'']]
   \<and> rendered (JObj
        [(''topics'', JList [JStr ''A'', JStr ''B'']),
         (''topic_results'', JList
           [JList [JObj [(''body'', JObj [(''question_id'', JInt 1), (''question'', JStr ''q1''),
                                         (''answer'', JStr ''a1'')])],
                   JObj [(''body'', JNull)]]])])
     = [St_header [Lit ''Processing Results''],
        St_warning [Lit ''Topic names and data lengths don't match. Displaying data without topic names.''],
        St_subheader [Lit ''Topic '', Lit ''1''],
        St_markdown [Lit ''**Question '', Fmt (JInt 1), Lit ''**: '', Fmt (JStr ''q1'')],
        St_markdown [Lit ''**Answer**: '', Fmt (JStr ''a1'')],
        St_markdown [Lit ''---'']]
   \<and> rendered (JObj
        [(''topics'', JList [JStr ''A'']),
         (''topic_results'', JList
           [JList [JObj [(''body'', JObj [(''question_id'', JInt 2), (''question'', JStr ''q2''),
                                         (''answer'', JStr ''a2'')])],
                   JObj [(''body'', JStr ''text'')],
                   JObj [(''body'', JObj [(''question_id'', JInt 1), (''question'', JStr ''q1''),
                                         (''answer'', JStr ''a1'')])]]])])
     = [St_header [Lit ''Processing Results''],
        St_subheader [Fmt (JStr ''A'')],
        St_markdown [Lit ''**Question '', Fmt (JInt 1), Lit ''**: '', Fmt (JStr ''q1'')],
        St_markdown [Lit ''**Answer**: '', Fmt (JStr ''a1'')],
        St_markdown [Lit ''---''],
        St_markdown [Lit ''**Question '', Fmt (JInt 2), Lit ''**: '', Fmt (JStr ''q2'')],
        St_markdown [Lit ''**Answer**: '', Fmt (JStr ''a2'')],
        St_markdown [Lit ''---'']]"
proof -
  let ?q1 = "JObj [(''body'', JObj [(''question_id'', JInt 1), (''question'', JStr ''q1''),
                                         (''answer'', JStr ''a1'')])]"
  let ?q2 = "JObj [(''body'', JObj [(''question_id'', JInt 2), (''question'', JStr ''q2''),
                                         (''answer'', JStr ''a2'')])]"
  let ?e1 = "[(''note'', JStr ''n/a'')]"
  let ?e2 = "[(''body'', JNull)]"
  let ?e3 = "[(''body'', JStr ''text'')]"
  let ?a = "[(''topic_results'', JList [JList [JObj ?e1, ?q1]])]"
  let ?a' = "[(''topic_results'', JList [JList [?q1]])]"
  let ?m = "[(''topics'', JList [JStr ''A'', JStr ''B'']),
             (''topic_results'', JList [JList [?q1, JObj ?e2]])]"
  let ?m' = "[(''topics'', JList [JStr ''A'', JStr ''B'']), (''topic_results'', JList [JList [?q1]])]"
  let ?n = "[(''topics'', JList [JStr ''A'']),
             (''topic_results'', JList [JList [?q2, JObj ?e3, ?q1]])]"
  let ?n' = "[(''topics'', JList [JStr ''A'']), (''topic_results'', JList [JList [?q2, ?q1]])]"
  have h1: "map_of ?e1 ''body'' = None \<or> (\<exists>v. map_of ?e1 ''body'' = Some v \<and> \<not> is_dict v)"
    by simp
  have h2: "map_of ?e2 ''body'' = None \<or> (\<exists>v. map_of ?e2 ''body'' = Some v \<and> \<not> is_dict v)"
    by simp
  have h3: "map_of ?e3 ''body'' = None \<or> (\<exists>v. map_of ?e3 ''body'' = Some v \<and> \<not> is_dict v)"
    by simp
  have a: "rendered (JObj ?a) = rendered (JObj ?a')"
    using entry_without_dict_body_skipped [OF h1, of ?a "[]" "[]" "[?q1]" "[]" ?a']
    by simp
  have m: "rendered (JObj ?m) = rendered (JObj ?m')"
    using entry_without_dict_body_skipped [OF h2, of ?m "[]" "[?q1]" "[]" "[]" ?m']
    by simp
  have n: "rendered (JObj ?n) = rendered (JObj ?n')"
    using entry_without_dict_body_skipped [OF h3, of ?n "[]" "[?q2]" "[?q1]" "[]" ?n']
    by simp
  have a': "rendered (JObj ?a')
     = [St_header [Lit ''Processing Results''],
        St_subheader [Lit ''Topic '', Lit ''1''],
        St_markdown [Lit ''**Question '', Fmt (JInt 1), Lit ''**: '', Fmt (JStr ''q1'')],
        St_markdown [Lit ''**Answer**: '', Fmt (JStr ''a1'')],
        St_markdown [Lit ''---'']]"
    by (simp add: render_defs py_defs enumerate_eq_zip)
  have m': "rendered (JObj ?m')
     = [St_header [Lit ''Processing Results''],
        St_warning [Lit ''Topic names and data lengths don't match. Displaying data without topic names.''],
        St_subheader [Lit ''Topic '', Lit ''1''],
        St_markdown [Lit ''**Question '', Fmt (JInt 1), Lit ''**: '', Fmt (JStr ''q1'')],
        St_markdown [Lit ''**Answer**: '', Fmt (JStr ''a1'')],
        St_markdown [Lit ''---'']]"
    by (simp add: render_defs py_defs enumerate_eq_zip)
  have n': "rendered (JObj ?n')
     = [St_header [Lit ''Processing Results''],
        St_subheader [Fmt (JStr ''A'')],
        St_markdown [Lit ''**Question '', Fmt (JInt 1), Lit ''**: '', Fmt (JStr ''q1'')],
        St_markdown [Lit ''**Answer**: '', Fmt (JStr ''a1'')],
        St_markdown [Lit ''---''],
        St_markdown [Lit ''**Question '', Fmt (JInt 2), Lit ''**: '', Fmt (JStr ''q2'')],
        St_markdown [Lit ''**Answer**: '', Fmt (JStr ''a2'')],
        St_markdown [Lit ''---'']]"
    by (simp add: render_defs py_defs)
  from a a' m m' n n' show ?thesis
    by simp
qed

text \<open>
  C10 as stated fails for an entry that lacks a \<^verbatim>\<open>body\<close> key because it is no
  container at all: on a \<^verbatim>\<open>null\<close> entry \<^verbatim>\<open>'body' in item\<close> raises \<^verbatim>\<open>TypeError\<close>,
  the page shows the warning of line 408, and the entry next to it, which has a body, is
  not rendered, in the fallback as in the equal-length path.
\<close>

theorem entry_without_body_counterexample:
  "rendered (JObj
        [(''topic_results'', JList
           [JList [JNull,
                   JObj [(''body'', JObj [(''question_id'', JInt 1), (''question'', JStr ''q1''),
                                         (''answer'', JStr ''a1'')])]]])])
     = [St_header [Lit ''Processing Results''],
        St_subheader [Lit ''Topic '', Lit ''1''],
        St_warning [Lit ''Could not parse execution output: '', FmtErr TypeError]]
   \<and> rendered (JObj
        [(''topics'', JList [JStr ''A'']),
         (''topic_results'', JList
           [JList [JObj [(''body'', JObj [(''question_id'', JInt 1), (''question'', JStr ''q1''),
                                         (''answer'', JStr ''a1'')])],
                   JNull]])])
     = [St_header [Lit ''Processing Results''],
        St_subheader [Fmt (JStr ''A'')],
        St_warning [Lit ''Could not parse execution output: '', FmtErr TypeError]]"
  by (simp add: render_defs py_defs enumerate_eq_zip)

section \<open>Failure details and the manual check\<close>

lemma no_button_Nil [simp]: "no_button []"
  by (simp add: no_button_def)

lemma no_button_Cons [simp]:
  "no_button (e # es) \<longleftrightarrow> (case e of St_button b \<Rightarrow> False | _ \<Rightarrow> True) \<and> no_button es"
  by (simp add: no_button_def)

lemma no_button_append [simp]: "no_button (xs @ ys) \<longleftrightarrow> no_button xs \<and> no_button ys"
  by (auto simp: no_button_def)

lemma no_button_seq: "no_button (fst a) \<Longrightarrow> no_button (fst b) \<Longrightarrow> no_button (fst (seq a b))"
  by (cases a; cases b) (auto simp: seq_def split: option.splits)

lemma no_button_try: "(\<And>v. no_button (fst (k v))) \<Longrightarrow> no_button (fst (try_value r k))"
  by (cases r) (simp_all add: try_value_def)

lemma no_button_for_each: "(\<And>x. no_button (fst (f x))) \<Longrightarrow> no_button (fst (for_each f xs))"
  by (induction xs) (simp_all add: no_button_seq emit_def)

lemma no_button_follow_up: "no_button (fst (render_follow_up p))"
  by (cases p) (auto simp: render_follow_up_def emit_def intro!: no_button_try)

lemma no_button_question: "no_button (fst (render_question body))"
proof -
  have "no_button (fst (try_value (py_iter v) (\<lambda>items. for_each render_follow_up (enumerate 0 items))))"
    for v
    by (intro no_button_try no_button_for_each no_button_follow_up)
  then have "no_button (fst (try_value (py_len v) (\<lambda>n.
                  if n > 0 then
                    seq (emit [St_markdown [Lit ''**Follow-up Questions:**'']])
                      (try_value (py_iter v) (\<lambda>items.
                         for_each render_follow_up (enumerate 0 items)))
                  else emit [])))" for v
    by (intro no_button_try) (simp add: no_button_seq emit_def)
  then show ?thesis
    by (simp add: render_question_def Let_def no_button_seq emit_def)
qed

lemma no_button_item: "no_button (fst (render_item item))"
  unfolding render_item_def
  by (intro no_button_try) (simp add: emit_def no_button_question split: option.splits)

lemma no_button_positional: "no_button (fst (render_positional_topic p))"
  by (cases p)
     (auto simp: render_positional_topic_def emit_def
           intro!: no_button_seq no_button_try no_button_for_each no_button_item)

lemma no_button_named: "no_button (fst (render_named_topic p))"
  by (cases p)
     (auto simp: render_named_topic_def emit_def
           intro!: no_button_seq no_button_try no_button_for_each no_button_question)

lemma no_button_output: "no_button (fst (render_output output))"
  unfolding render_output_def
  by (intro no_button_try)
     (auto simp: emit_def mismatch_warning_def
           intro!: no_button_seq no_button_try no_button_for_each no_button_named
                   no_button_positional)

lemma no_button_rendered: "no_button (rendered v)"
  using no_button_output [of v]
  by (cases "render_output v") (auto simp: rendered_def parse_warning_def split: option.splits)

lemma no_button_succeeded: "no_button (succeeded_block loads resp)"
  by (auto simp: succeeded_block_def parse_warning_def no_button_rendered split: sum.splits)

lemma no_button_failed: "no_button (failed_block loads resp)"
  by (auto simp: failed_block_def details_warning_def split: sum.splits)

lemma button_not_in: "no_button es \<Longrightarrow> St_button b \<notin> set es"
  by (auto simp: no_button_def)

text \<open>
  C4, amended. Under the status \<^verbatim>\<open>FAILED\<close> the page shows \<^verbatim>\<open>Processing failed.\<close>, then
  decodes the \<^verbatim>\<open>error\<close> and the \<^verbatim>\<open>cause\<close> of the response, each read as the text
  \<^verbatim>\<open>{}\<close> when the response has no such field. When both decode, both are shown. When
  the \<^verbatim>\<open>describe_execution\<close> call or one of the two decodings raises, neither is shown
  and the page shows a warning instead.
\<close>

theorem failed_details_rendering:
  "failed_block loads (Inl e) = [details_warning e]
   \<and> (loads (field_or_default (resp_error r)) = Inr error
        \<and> loads (field_or_default (resp_cause r)) = Inr cause \<longrightarrow>
        failed_block loads (Inr r)
          = [St_error [Lit ''Error: '', Fmt error], St_error [Lit ''Cause: '', Fmt cause]])
   \<and> (loads (field_or_default (resp_error r)) = Inl e \<longrightarrow>
        failed_block loads (Inr r) = [details_warning e])
   \<and> (loads (field_or_default (resp_error r)) = Inr error
        \<and> loads (field_or_default (resp_cause r)) = Inl e \<longrightarrow>
        failed_block loads (Inr r) = [details_warning e])
   \<and> field_or_default None = ''{}'' \<and> field_or_default (Some s) = s
   \<and> (truthy_str (execution_arn st) \<and> execution_status st = Some ''FAILED'' \<longrightarrow>
        status_section loads st resp clicked poll
          = (st, [St_header [Lit ''Execution Status''],
                  St_write [Lit ''Current Status: **'', Lit ''FAILED'', Lit ''**''],
                  St_error [Lit ''Processing failed.'']] @ failed_block loads resp, False))"
  by (simp add: failed_block_def field_or_default_def status_section_def)

theorem failed_details_rendering_witness:
  "loads_example (field_or_default (resp_error \<lparr>resp_status = ''FAILED'', resp_output = None,
        resp_error = None, resp_cause = None\<rparr>)) = Inr (JObj [])
   \<and> failed_block loads_example (Inr \<lparr>resp_status = ''FAILED'', resp_output = None,
        resp_error = None, resp_cause = None\<rparr>)
     = [St_error [Lit ''Error: '', Fmt (JObj [])], St_error [Lit ''Cause: '', Fmt (JObj [])]]
   \<and> loads_example (field_or_default (resp_cause \<lparr>resp_status = ''FAILED'', resp_output = None,
        resp_error = None, resp_cause = Some ''Lambda raised''\<rparr>)) = Inl JSONDecodeError
   \<and> failed_block loads_example (Inr \<lparr>resp_status = ''FAILED'', resp_output = None,
        resp_error = None, resp_cause = Some ''Lambda raised''\<rparr>)
     = [St_warning [Lit ''Could not parse error details: '', FmtErr JSONDecodeError]]"
proof -
  let ?r = "\<lparr>resp_status = ''FAILED'', resp_output = None, resp_error = None,
             resp_cause = None\<rparr>"
  let ?r' = "\<lparr>resp_status = ''FAILED'', resp_output = None, resp_error = None,
             resp_cause = Some ''Lambda raised''\<rparr>"
  have a: "loads_example (field_or_default (resp_error ?r)) = Inr (JObj [])"
    and b: "loads_example (field_or_default (resp_cause ?r)) = Inr (JObj [])"
    and c: "loads_example (field_or_default (resp_error ?r')) = Inr (JObj [])"
    and d: "loads_example (field_or_default (resp_cause ?r')) = Inl JSONDecodeError"
    by (simp_all add: loads_example_def field_or_default_def)
  from failed_details_rendering [of loads_example _ ?r "JObj []" "JObj []"] a b
  have 1: "failed_block loads_example (Inr ?r)
     = [St_error [Lit ''Error: '', Fmt (JObj [])], St_error [Lit ''Cause: '', Fmt (JObj [])]]"
    by blast
  from failed_details_rendering [of loads_example JSONDecodeError ?r' "JObj []"] c d
  have 2: "failed_block loads_example (Inr ?r') = [details_warning JSONDecodeError]"
    by blast
  from a d 1 2 show ?thesis
    by (simp add: details_warning_def)
qed

text \<open>
  C4 as stated fails on the default: a field that is present and is not JSON, such as the
  error name \<^verbatim>\<open>States.TaskFailed\<close>, is not replaced by the empty object; the decoding
  raises and the page shows the warning only.
\<close>

theorem failed_details_counterexample:
  "loads_example ''States.TaskFailed'' = Inl JSONDecodeError
   \<and> failed_block loads_example (Inr \<lparr>resp_status = ''FAILED'', resp_output = None,
        resp_error = Some ''States.TaskFailed'', resp_cause = Some ''Lambda raised''\<rparr>)
     = [St_warning [Lit ''Could not parse error details: '', FmtErr JSONDecodeError]]"
  by (simp add: loads_example_def failed_block_def field_or_default_def details_warning_def)

text \<open>
  C9, amended. The button \<^verbatim>\<open>Check Status Manually\<close> is on the page exactly when there is
  an execution handle, automatic checking is off and the current status is
  \<^verbatim>\<open>RUNNING\<close>. Pressing it calls \<^verbatim>\<open>auto_check_status\<close> once, which stores the status it
  fetches, and reruns the script.
\<close>

theorem manual_check_when_running:
  "(St_button ''Check Status Manually''
       \<in> set (fst (snd (status_section loads st resp clicked poll)))
     \<longleftrightarrow> truthy_str (execution_arn st) \<and> \<not> auto_check st
          \<and> execution_status st = Some ''RUNNING'')
   \<and> (truthy_str (execution_arn st) \<and> \<not> auto_check st
        \<and> execution_status st = Some ''RUNNING'' \<longrightarrow>
        status_section loads st resp False poll
          = (st, [St_header [Lit ''Execution Status''],
                  St_write [Lit ''Current Status: **'', Lit ''RUNNING'', Lit ''**''],
                  St_info [Lit ''Processing is running.''],
                  St_button ''Check Status Manually''], False)
        \<and> status_section loads st resp True poll
          = (fst (auto_check_status st poll),
                 [St_header [Lit ''Execution Status''],
                  St_write [Lit ''Current Status: **'', Lit ''RUNNING'', Lit ''**''],
                  St_info [Lit ''Processing is running.''],
                  St_button ''Check Status Manually''], True)
        \<and> (\<forall>r. poll = Inr r \<longrightarrow>
              execution_status (fst (status_section loads st resp True poll))
                = Some (resp_status r)))"
proof -
  have s: "St_button ''Check Status Manually'' \<notin> set (succeeded_block loads resp)"
    by (rule button_not_in) (rule no_button_succeeded)
  have f: "St_button ''Check Status Manually'' \<notin> set (failed_block loads resp)"
    by (rule button_not_in) (rule no_button_failed)
  show ?thesis
  proof (cases "execution_status st")
    case None
    then show ?thesis
      by (simp add: status_section_def)
  next
    case (Some status)
    with s f show ?thesis
      by (auto simp: status_section_def Let_def auto_check_status_def split: sum.splits)
  qed
qed

theorem manual_check_when_running_witness:
  "truthy_str (execution_arn \<lparr>session_id = Some ''s1'', auto_check = False,
        uploaded_files = [''s1/a.pdf''], execution_arn = Some ''arn:1'',
        execution_status = Some ''RUNNING''\<rparr>)
   \<and> status_section loads_example
        \<lparr>session_id = Some ''s1'', auto_check = False, uploaded_files = [''s1/a.pdf''],
          execution_arn = Some ''arn:1'', execution_status = Some ''RUNNING''\<rparr>
        (Inl KeyError) True
        (Inr \<lparr>resp_status = ''SUCCEEDED'', resp_output = None, resp_error = None,
              resp_cause = None\<rparr>)
     = (\<lparr>session_id = Some ''s1'', auto_check = False, uploaded_files = [''s1/a.pdf''],
          execution_arn = Some ''arn:1'', execution_status = Some ''SUCCEEDED''\<rparr>,
        [St_header [Lit ''Execution Status''],
         St_write [Lit ''Current Status: **'', Lit ''RUNNING'', Lit ''**''],
         St_info [Lit ''Processing is running.''],
         St_button ''Check Status Manually''], True)"
proof -
  let ?st = "\<lparr>session_id = Some ''s1'', auto_check = False, uploaded_files = [''s1/a.pdf''],
          execution_arn = Some ''arn:1'', execution_status = Some ''RUNNING''\<rparr>"
  let ?poll = "Inr \<lparr>resp_status = ''SUCCEEDED'', resp_output = None, resp_error = None,
              resp_cause = None\<rparr> :: py_error + describe_response"
  have h: "truthy_str (execution_arn ?st) \<and> \<not> auto_check ?st
             \<and> execution_status ?st = Some ''RUNNING''"
    by simp
  have a: "fst (auto_check_status ?st ?poll) = ?st\<lparr>execution_status := Some ''SUCCEEDED''\<rparr>"
    by (simp add: auto_check_status_def terminal_statuses_def Let_def)
  from manual_check_when_running [of loads_example ?st "Inl KeyError" True ?poll] h a
  show ?thesis
    by simp
qed

text \<open>
  C9 as stated fails for \<^verbatim>\<open>PENDING\<close>: with automatic checking off and the status
  \<^verbatim>\<open>PENDING\<close>, which is not terminal, the page shows the status line and no button.
\<close>

theorem manual_check_counterexample:
  "''PENDING'' \<notin> set terminal_statuses
   \<and> status_section loads_example
        \<lparr>session_id = Some ''s1'', auto_check = False, uploaded_files = [''s1/a.pdf''],
          execution_arn = Some ''arn:1'', execution_status = Some ''PENDING''\<rparr>
        (Inl KeyError) False (Inl KeyError)
     = (\<lparr>session_id = Some ''s1'', auto_check = False, uploaded_files = [''s1/a.pdf''],
          execution_arn = Some ''arn:1'', execution_status = Some ''PENDING''\<rparr>,
        [St_header [Lit ''Execution Status''],
         St_write [Lit ''Current Status: **'', Lit ''PENDING'', Lit ''**'']], False)"
  by (simp add: terminal_statuses_def status_section_def Let_def)

end
